theory Spec2Isabelle
  imports Complex_Main
begin

section \<open>Python primitives used by the crop transforms\<close>

text \<open>
  The transforms of \<^verbatim>\<open>albumentations/augmentations/crops/transforms.py\<close> compute with
  Python's unbounded integers (modelled as \<open>int\<close>) and with floats, which are idealised
  here as \<open>real\<close>. Every exception the code can raise is a value of \<open>error\<close>, and a
  function that can raise returns \<open>error + 'a\<close>.
\<close>

datatype error = ValueError | RuntimeError | KeyError | IndexError | TypeError | ZeroDivisionError

text \<open>\<^verbatim>\<open>int(x)\<close> on a float truncates towards zero.\<close>

definition py_int :: "real \<Rightarrow> int" where
  "py_int x = (if 0 \<le> x then \<lfloor>x\<rfloor> else \<lceil>x\<rceil>)"

text \<open>\<^verbatim>\<open>round(x)\<close> on a float rounds to the nearest integer, a tie to the even one.\<close>

definition py_round :: "real \<Rightarrow> int" where
  "py_round x =
     (let f = \<lfloor>x\<rfloor>; d = x - of_int f in
      if d < 1 / 2 then f
      else if 1 / 2 < d then f + 1
      else if even f then f else f + 1)"

text \<open>
  The random source is an explicit argument. \<^verbatim>\<open>random.random()\<close> is a draw \<open>u\<close> with
  \<open>0 \<le> u < 1\<close>; an integer draw is raw entropy \<open>r\<close> that \<^verbatim>\<open>randint\<close>, \<^verbatim>\<open>randrange\<close>
  and \<^verbatim>\<open>choice\<close> reduce into their range, so that every \<open>r\<close> gives a value of the
  range and every value of the range is given by some \<open>r\<close>. An empty range raises
  \<^verbatim>\<open>ValueError\<close>, an empty sequence \<^verbatim>\<open>IndexError\<close>.
\<close>

definition randint :: "int \<Rightarrow> int \<Rightarrow> int \<Rightarrow> error + int" where
  "randint a b r = (if b < a then Inl ValueError else Inr (a + r mod (b - a + 1)))"

definition randrange :: "int \<Rightarrow> int \<Rightarrow> int \<Rightarrow> error + int" where
  "randrange a b r = (if b \<le> a then Inl ValueError else Inr (a + r mod (b - a)))"

definition uniform :: "real \<Rightarrow> real \<Rightarrow> real \<Rightarrow> real" where
  "uniform a b u = a + (b - a) * u"

definition choice :: "'a list \<Rightarrow> int \<Rightarrow> error + 'a" where
  "choice xs r = (if xs = [] then Inl IndexError else Inr (xs ! nat (r mod int (length xs))))"

text \<open>A comprehension whose elements can raise: the first exception wins.\<close>

fun collect :: "(error + 'a) list \<Rightarrow> error + 'a list" where
  "collect [] = Inr []"
| "collect (Inl e # xs) = Inl e"
| "collect (Inr v # xs) = (case collect xs of Inl e \<Rightarrow> Inl e | Inr vs \<Rightarrow> Inr (v # vs))"

text \<open>Sequencing of two steps of which the first can raise.\<close>

definition and_then :: "error + 'a \<Rightarrow> ('a \<Rightarrow> error + 'b) \<Rightarrow> error + 'b" where
  "and_then m f = (case m of Inl e \<Rightarrow> Inl e | Inr v \<Rightarrow> f v)"

text \<open>\<^verbatim>\<open>np.clip(x, lo, hi)\<close> is \<^verbatim>\<open>minimum(maximum(x, lo), hi)\<close>.\<close>

definition np_clip :: "'a::linorder \<Rightarrow> 'a \<Rightarrow> 'a \<Rightarrow> 'a" where
  "np_clip x lo hi = min (max x lo) hi"

text \<open>
  The constructors pass \<^verbatim>\<open>always_apply\<close> and \<^verbatim>\<open>p\<close> to the base class, which stores them;
  they play no part in the sampled geometry and are left out of the records.
\<close>

section \<open>CropAndPad\<close>

datatype px_spec = PxInt int | PxSeq "int list" | PxSeqRanges "(int \<times> int) list"

datatype percent_spec = PercentFloat real | PercentSeq "real list" | PercentSeqRanges "(real \<times> real) list"

datatype number = IntNum int | FloatNum real

datatype pad_cval_spec = PadNum number | PadSeq "number list"

record CropAndPad =
  px :: "px_spec option"
  percent :: "percent_spec option"
  pad_mode :: int
  pad_cval :: pad_cval_spec
  pad_cval_mask :: pad_cval_spec
  keep_size :: bool
  sample_independently :: bool
  interpolation :: int

definition CropAndPad_init ::
  "px_spec option \<Rightarrow> percent_spec option \<Rightarrow> int \<Rightarrow> pad_cval_spec \<Rightarrow> pad_cval_spec \<Rightarrow> bool \<Rightarrow> bool
     \<Rightarrow> int \<Rightarrow> error + CropAndPad" where
  "CropAndPad_init px0 percent0 pad_mode0 pad_cval0 pad_cval_mask0 keep_size0 sample_independently0
       interpolation0 =
     (if px0 = None \<and> percent0 = None then Inl ValueError
      else if px0 \<noteq> None \<and> percent0 \<noteq> None then Inl ValueError
      else Inr \<lparr>px = px0, percent = percent0, pad_mode = pad_mode0, pad_cval = pad_cval0,
                pad_cval_mask = pad_cval_mask0, keep_size = keep_size0,
                sample_independently = sample_independently0, interpolation = interpolation0\<rparr>)"

definition CropAndPad__prevent_zero :: "int \<Rightarrow> int \<Rightarrow> int \<Rightarrow> int \<times> int" where
  "CropAndPad__prevent_zero val1 val2 max_val =
     (let regain = \<bar>max_val\<bar> + 1;
          regain1 = regain div 2;
          regain2 = regain div 2;
          regain1 = (if regain1 + regain2 < regain then regain1 + 1 else regain1);
          (regain1, regain2) =
             (if regain1 > val1 then (val1, regain2 + (regain1 - val1))
              else if regain2 > val2 then (regain1 + (regain2 - val2), val2)
              else (regain1, regain2))
      in (val1 - regain1, val2 - regain2))"

text \<open>
  \<^verbatim>\<open>_prevent_zero\<close> unpacks its list into four names, which raises \<^verbatim>\<open>ValueError\<close> for a
  list of another length.
\<close>

fun CropAndPad_prevent_zero :: "int list \<Rightarrow> int \<Rightarrow> int \<Rightarrow> error + int list" where
  "CropAndPad_prevent_zero [top', right, bottom, left] height width =
     (let remaining_height = height - (top' + bottom);
          remaining_width = width - (left + right);
          (top', bottom) =
             (if remaining_height < 1 then CropAndPad__prevent_zero top' bottom height
              else (top', bottom));
          (left, right) =
             (if remaining_width < 1 then CropAndPad__prevent_zero left right width
              else (left, right))
      in Inr [max top' 0, max right 0, max bottom 0, max left 0])"
| "CropAndPad_prevent_zero crop_params height width = Inl ValueError"

text \<open>
  The random source of one call: \<open>ri k\<close> is the \<open>k\<close>-th integer draw and \<open>ru k\<close> the
  \<open>k\<close>-th float draw. The per-side draws are number 0 to 3, the draw of \<^verbatim>\<open>pad_value\<close> is
  number 4 and that of \<^verbatim>\<open>pad_value_mask\<close> number 5.
\<close>

definition CropAndPad_get_px_params :: "CropAndPad \<Rightarrow> (nat \<Rightarrow> int) \<Rightarrow> error + int list" where
  "CropAndPad_get_px_params self ri =
     (case px self of
        None \<Rightarrow> Inl ValueError
      | Some (PxInt v) \<Rightarrow> Inr (replicate 4 v)
      | Some (PxSeq xs) \<Rightarrow>
          if length xs = 2 then
            (if sample_independently self
             then collect (map (\<lambda>k. randrange (xs ! 0) (xs ! 1) (ri k)) [0..<4])
             else (case randrange (xs ! 0) (xs ! 1) (ri 0) of
                     Inl e \<Rightarrow> Inl e
                   | Inr v \<Rightarrow> Inr (replicate 4 v)))
          else if xs = [] then Inl IndexError
          else Inr xs
      | Some (PxSeqRanges rs) \<Rightarrow>
          if length rs = 2 then Inl TypeError
          else if rs = [] then Inl IndexError
          else collect (map (\<lambda>(k, (a, b)). randrange a b (ri k)) (enumerate 0 rs)))"

definition CropAndPad_get_percent_params :: "CropAndPad \<Rightarrow> (nat \<Rightarrow> real) \<Rightarrow> error + real list" where
  "CropAndPad_get_percent_params self ru =
     (case percent self of
        None \<Rightarrow> Inl ValueError
      | Some (PercentFloat v) \<Rightarrow> Inr (replicate 4 v)
      | Some (PercentSeq xs) \<Rightarrow>
          if length xs = 2 then
            (if sample_independently self
             then Inr (map (\<lambda>k. uniform (xs ! 0) (xs ! 1) (ru k)) [0..<4])
             else Inr (replicate 4 (uniform (xs ! 0) (xs ! 1) (ru 0))))
          else if xs = [] then Inl IndexError
          else Inr xs
      | Some (PercentSeqRanges rs) \<Rightarrow>
          if length rs = 2 then Inl TypeError
          else if rs = [] then Inl IndexError
          else Inr (map (\<lambda>(k, (a, b)). uniform a b (ru k)) (enumerate 0 rs)))"

fun number_val :: "number \<Rightarrow> real" where
  "number_val (IntNum i) = of_int i"
| "number_val (FloatNum x) = x"

fun CropAndPad_get_pad_value :: "pad_cval_spec \<Rightarrow> int \<Rightarrow> real \<Rightarrow> error + number" where
  "CropAndPad_get_pad_value (PadNum n) r u = Inr n"
| "CropAndPad_get_pad_value (PadSeq [IntNum a, IntNum b]) r u =
     (case randint a b r of Inl e \<Rightarrow> Inl e | Inr v \<Rightarrow> Inr (IntNum v))"
| "CropAndPad_get_pad_value (PadSeq [a, b]) r u =
     Inr (FloatNum (uniform (number_val a) (number_val b) u))"
| "CropAndPad_get_pad_value (PadSeq xs) r u = choice xs r"

record CropAndPad_params =
  crop_params :: "int list option"
  pad_params :: "int list option"
  pad_value :: number
  pad_value_mask :: number
  result_rows :: int
  result_cols :: int

definition CropAndPad_new_params ::
  "CropAndPad \<Rightarrow> int \<Rightarrow> int \<Rightarrow> (nat \<Rightarrow> int) \<Rightarrow> (nat \<Rightarrow> real) \<Rightarrow> error + int list" where
  "CropAndPad_new_params self height width ri ru =
     (if px self \<noteq> None then CropAndPad_get_px_params self ri
      else (case CropAndPad_get_percent_params self ru of
              Inl e \<Rightarrow> Inl e
            | Inr percent_params \<Rightarrow>
                if length percent_params < 4 then Inl IndexError
                else Inr [py_int (percent_params ! 0 * of_int height),
                          py_int (percent_params ! 1 * of_int width),
                          py_int (percent_params ! 2 * of_int height),
                          py_int (percent_params ! 3 * of_int width)]))"

definition CropAndPad_get_params_dependent_on_targets ::
  "CropAndPad \<Rightarrow> int \<Rightarrow> int \<Rightarrow> (nat \<Rightarrow> int) \<Rightarrow> (nat \<Rightarrow> real) \<Rightarrow> error + CropAndPad_params" where
  "CropAndPad_get_params_dependent_on_targets self height width ri ru =
     (case CropAndPad_new_params self height width ri ru of
        Inl e \<Rightarrow> Inl e
      | Inr new_params \<Rightarrow>
          let pad_params0 = map (\<lambda>i. max i 0) new_params in
          (case CropAndPad_prevent_zero (map (\<lambda>i. - min i 0) new_params) height width of
             Inl e \<Rightarrow> Inl e
           | Inr cp \<Rightarrow>
               let top' = cp ! 0; right = cp ! 1; bottom = cp ! 2; left = cp ! 3;
                   crop_params0 = [left, top', width - right, height - bottom];
                   result_rows0 = crop_params0 ! 3 - crop_params0 ! 1;
                   result_cols0 = crop_params0 ! 2 - crop_params0 ! 0;
                   crop_params1 =
                     (if result_cols0 = width \<and> result_rows0 = height then [] else crop_params0);
                   top' = pad_params0 ! 0; right = pad_params0 ! 1;
                   bottom = pad_params0 ! 2; left = pad_params0 ! 3;
                   pad_params1 = [top', bottom, left, right];
                   padded = (\<exists>v \<in> set pad_params1. v \<noteq> 0);
                   result_rows1 = (if padded then result_rows0 + (top' + bottom) else result_rows0);
                   result_cols1 = (if padded then result_cols0 + (left + right) else result_cols0);
                   pad_params2 = (if padded then pad_params1 else [])
               in (case CropAndPad_get_pad_value (pad_cval self) (ri 4) (ru 4) of
                     Inl e \<Rightarrow> Inl e
                   | Inr pv \<Rightarrow>
                       (case CropAndPad_get_pad_value (pad_cval_mask self) (ri 5) (ru 5) of
                          Inl e \<Rightarrow> Inl e
                        | Inr pvm \<Rightarrow>
                            Inr \<lparr>crop_params = (if crop_params1 = [] then None else Some crop_params1),
                                 pad_params = (if pad_params2 = [] then None else Some pad_params2),
                                 pad_value = pv, pad_value_mask = pvm,
                                 result_rows = result_rows1, result_cols = result_cols1\<rparr>))))"

section \<open>Descriptors shared by the sampling strategies\<close>

record crop_coords =
  x_min :: int
  x_max :: int
  y_min :: int
  y_max :: int

record random_crop_params =
  h_start :: real
  w_start :: real
  crop_height :: int
  crop_width :: int

section \<open>RandomCropFromBorders\<close>

record RandomCropFromBorders =
  crop_left :: real
  crop_right :: real
  crop_top :: real
  crop_bottom :: real

definition RandomCropFromBorders_init ::
  "real \<Rightarrow> real \<Rightarrow> real \<Rightarrow> real \<Rightarrow> error + RandomCropFromBorders" where
  "RandomCropFromBorders_init crop_left0 crop_right0 crop_top0 crop_bottom0 =
     Inr \<lparr>crop_left = crop_left0, crop_right = crop_right0, crop_top = crop_top0,
          crop_bottom = crop_bottom0\<rparr>"

text \<open>The frame is \<^verbatim>\<open>img.shape[0]\<close> rows by \<^verbatim>\<open>img.shape[1]\<close> columns; the four integer
  draws are consumed in the order of the four \<^verbatim>\<open>random.randint\<close> calls.\<close>

definition RandomCropFromBorders_get_params_dependent_on_targets ::
  "RandomCropFromBorders \<Rightarrow> int \<Rightarrow> int \<Rightarrow> (nat \<Rightarrow> int) \<Rightarrow> error + crop_coords" where
  "RandomCropFromBorders_get_params_dependent_on_targets self rows cols ri =
     and_then (randint 0 (py_int (crop_left self * of_int cols)) (ri 0)) (\<lambda>x_min0.
     and_then (randint (max (x_min0 + 1) (py_int ((1 - crop_right self) * of_int cols))) cols (ri 1)) (\<lambda>x_max0.
     and_then (randint 0 (py_int (crop_top self * of_int rows)) (ri 2)) (\<lambda>y_min0.
     and_then (randint (max (y_min0 + 1) (py_int ((1 - crop_bottom self) * of_int rows))) rows (ri 3)) (\<lambda>y_max0.
     Inr \<lparr>x_min = x_min0, x_max = x_max0, y_min = y_min0, y_max = y_max0\<rparr>))))"

section \<open>RandomCropNearBBox\<close>

datatype scale_float = Scalar real | Pair real real

text \<open>
  Modelled from the spec: \<^verbatim>\<open>to_tuple\<close> of \<^verbatim>\<open>albumentations/core/transforms_interface.py\<close> is
  not among the sources. The class documentation gives what it returns here: a pair is
  kept, and for a single float "the range will be (max_part_shift, max_part_shift)".
\<close>

fun to_tuple :: "scale_float \<Rightarrow> real \<times> real" where
  "to_tuple (Scalar v) = (v, v)"
| "to_tuple (Pair a b) = (a, b)"

record RandomCropNearBBox =
  max_part_shift :: "real \<times> real"
  cropping_bbox_key :: string

definition RandomCropNearBBox_init :: "scale_float \<Rightarrow> string \<Rightarrow> error + RandomCropNearBBox" where
  "RandomCropNearBBox_init max_part_shift0 cropping_box_key =
     (let mps = to_tuple max_part_shift0 in
      if min (fst mps) (snd mps) < 0 \<or> max (fst mps) (snd mps) > 1 then Inl ValueError
      else Inr \<lparr>max_part_shift = mps, cropping_bbox_key = cropping_box_key\<rparr>)"

text \<open>The reference rectangle \<open>(x1, y1, x2, y2)\<close> is looked up in the parameters under the
  configured key; a missing key raises \<^verbatim>\<open>KeyError\<close>.\<close>

definition RandomCropNearBBox_get_params_dependent_on_targets ::
  "RandomCropNearBBox \<Rightarrow> (string \<rightharpoonup> int \<times> int \<times> int \<times> int) \<Rightarrow> (nat \<Rightarrow> int) \<Rightarrow> error + crop_coords" where
  "RandomCropNearBBox_get_params_dependent_on_targets self params ri =
     (case params (cropping_bbox_key self) of
        None \<Rightarrow> Inl KeyError
      | Some (bbox0, bbox1, bbox2, bbox3) \<Rightarrow>
          let h_max_shift = py_round (of_int (bbox3 - bbox1) * fst (max_part_shift self));
              w_max_shift = py_round (of_int (bbox2 - bbox0) * snd (max_part_shift self))
          in
          and_then (randint (- w_max_shift) w_max_shift (ri 0)) (\<lambda>d0.
          and_then (randint (- w_max_shift) w_max_shift (ri 1)) (\<lambda>d1.
          and_then (randint (- h_max_shift) h_max_shift (ri 2)) (\<lambda>d2.
          and_then (randint (- h_max_shift) h_max_shift (ri 3)) (\<lambda>d3.
          Inr \<lparr>x_min = max 0 (bbox0 - d0), x_max = bbox2 + d1,
               y_min = max 0 (bbox1 - d2), y_max = bbox3 + d3\<rparr>)))))"

section \<open>RandomSizedCrop\<close>

text \<open>
  The fields of \<^verbatim>\<open>_BaseRandomSizedCrop\<close> are \<^verbatim>\<open>height\<close>, \<^verbatim>\<open>width\<close> and \<^verbatim>\<open>interpolation\<close>, the
  size and interpolation of the resized output. They carry a prime here, since
  CropAndPad and CropNonEmptyMaskIfExists have fields of the same names.
\<close>

record BaseRandomSizedCrop =
  height' :: int
  width' :: int
  interpolation' :: int

record RandomSizedCrop = BaseRandomSizedCrop +
  min_max_height :: "int \<times> int"
  w2h_ratio :: real

definition RandomSizedCrop_init ::
  "int \<times> int \<Rightarrow> int \<Rightarrow> int \<Rightarrow> real \<Rightarrow> int \<Rightarrow> error + RandomSizedCrop" where
  "RandomSizedCrop_init min_max_height0 height0 width0 w2h_ratio0 interpolation0 =
     Inr \<lparr>height' = height0, width' = width0, interpolation' = interpolation0,
          min_max_height = min_max_height0, w2h_ratio = w2h_ratio0\<rparr>"

definition RandomSizedCrop_get_params ::
  "RandomSizedCrop \<Rightarrow> int \<Rightarrow> real \<Rightarrow> real \<Rightarrow> error + random_crop_params" where
  "RandomSizedCrop_get_params self r u0 u1 =
     and_then (randint (fst (min_max_height self)) (snd (min_max_height self)) r) (\<lambda>crop_height0.
     Inr \<lparr>h_start = u0, w_start = u1, crop_height = crop_height0,
          crop_width = py_int (of_int crop_height0 * w2h_ratio self)\<rparr>)"

section \<open>BBoxSafeRandomCrop\<close>

type_synonym bbox = "real \<times> real \<times> real \<times> real"

record BBoxSafeRandomCrop =
  erosion_rate :: real

definition BBoxSafeRandomCrop_init :: "real \<Rightarrow> error + BBoxSafeRandomCrop" where
  "BBoxSafeRandomCrop_init erosion_rate0 = Inr \<lparr>erosion_rate = erosion_rate0\<rparr>"

text \<open>The region that the crop is derived from: the union rectangle grown on each of its
  four sides by a random fraction of the margin left on that side.\<close>

definition bigger_region :: "bbox \<Rightarrow> (nat \<Rightarrow> real) \<Rightarrow> bbox" where
  "bigger_region u ru =
     (case u of (x, y, x2, y2) \<Rightarrow>
        (x * ru 0, y * ru 1, x2 + (1 - x2) * ru 2, y2 + (1 - y2) * ru 3))"

text \<open>
  \<^verbatim>\<open>union_of_bboxes\<close> of \<^verbatim>\<open>albumentations/core/bbox_utils.py\<close> is not among the sources; it is
  the parameter \<open>union_of_bboxes\<close>, called with the frame width and height, the boxes and
  the erosion rate.
\<close>

definition BBoxSafeRandomCrop_get_params_dependent_on_targets ::
  "BBoxSafeRandomCrop \<Rightarrow> (int \<Rightarrow> int \<Rightarrow> bbox list \<Rightarrow> real \<Rightarrow> bbox) \<Rightarrow> int \<Rightarrow> int \<Rightarrow> bbox list
     \<Rightarrow> (nat \<Rightarrow> int) \<Rightarrow> (nat \<Rightarrow> real) \<Rightarrow> error + random_crop_params" where
  "BBoxSafeRandomCrop_get_params_dependent_on_targets self union_of_bboxes img_h img_w bboxes ri ru =
     (if length bboxes = 0 then
        (let erosive_h = py_int (of_int img_h * (1 - erosion_rate self)) in
         and_then (if erosive_h \<ge> img_h then Inr img_h else randint erosive_h img_h (ri 0)) (\<lambda>crop_height0.
         if img_h = 0 then Inl ZeroDivisionError
         else Inr \<lparr>h_start = ru 0, w_start = ru 1, crop_height = crop_height0,
                   crop_width = py_int (of_int (crop_height0 * img_w) / of_int img_h)\<rparr>))
      else
        (case bigger_region (union_of_bboxes img_w img_h bboxes (erosion_rate self)) ru of
           (bx, by, bx2, by2) \<Rightarrow>
             let bw = bx2 - bx; bh = by2 - by;
                 crop_height0 = (if bh \<ge> 1 then img_h else py_int (of_int img_h * bh));
                 crop_width0 = (if bw \<ge> 1 then img_w else py_int (of_int img_w * bw));
                 h_start0 = np_clip (if bh \<ge> 1 then 0 else by / (1 - bh)) 0 1;
                 w_start0 = np_clip (if bw \<ge> 1 then 0 else bx / (1 - bw)) 0 1
             in Inr \<lparr>h_start = h_start0, w_start = w_start0, crop_height = crop_height0,
                     crop_width = crop_width0\<rparr>))"

section \<open>RandomResizedCrop\<close>

record RandomResizedCrop = BaseRandomSizedCrop +
  scale :: "real \<times> real"
  ratio :: "real \<times> real"

definition RandomResizedCrop_init ::
  "int \<Rightarrow> int \<Rightarrow> real \<times> real \<Rightarrow> real \<times> real \<Rightarrow> int \<Rightarrow> error + RandomResizedCrop" where
  "RandomResizedCrop_init height0 width0 scale0 ratio0 interpolation0 =
     Inr \<lparr>height' = height0, width' = width0, interpolation' = interpolation0,
          scale = scale0, ratio = ratio0\<rparr>"

text \<open>
  One pass of the loop body up to the test: the candidate \<open>(width, height)\<close> from the two
  float draws of the pass. \<^verbatim>\<open>math.log\<close> raises \<^verbatim>\<open>ValueError\<close> outside the positive reals
  and \<^verbatim>\<open>math.sqrt\<close> below zero.
\<close>

definition RandomResizedCrop_candidate ::
  "RandomResizedCrop \<Rightarrow> int \<Rightarrow> int \<Rightarrow> real \<Rightarrow> real \<Rightarrow> error + int \<times> int" where
  "RandomResizedCrop_candidate self rows cols u0 u1 =
     (let area = rows * cols;
          target_area = uniform (fst (scale self)) (snd (scale self)) u0 * of_int area
      in
      if fst (ratio self) \<le> 0 \<or> snd (ratio self) \<le> 0 then Inl ValueError
      else
        let log_ratio = (ln (fst (ratio self)), ln (snd (ratio self)));
            aspect_ratio = exp (uniform (fst log_ratio) (snd log_ratio) u1)
        in
        if target_area * aspect_ratio < 0 then Inl ValueError
        else if target_area / aspect_ratio < 0 then Inl ValueError
        else Inr (py_round (sqrt (target_area * aspect_ratio)),
                  py_round (sqrt (target_area / aspect_ratio))))"

definition RandomResizedCrop_descriptor ::
  "int \<Rightarrow> int \<Rightarrow> int \<Rightarrow> int \<Rightarrow> int \<Rightarrow> int \<Rightarrow> random_crop_params" where
  "RandomResizedCrop_descriptor rows cols height width i j =
     \<lparr>h_start = of_int i * 1 / (of_int (rows - height) + 1 / 10 ^ 10),
      w_start = of_int j * 1 / (of_int (cols - width) + 1 / 10 ^ 10),
      crop_height = height, crop_width = width\<rparr>"

text \<open>
  The loop \<^verbatim>\<open>for _ in range(10)\<close>: \<open>n\<close> passes are left and \<open>k\<close> have been made. Pass \<open>k\<close>
  takes the float draws \<open>2 k\<close> and \<open>2 k + 1\<close>; an accepted candidate takes the two integer
  draws for its offsets and returns. \<open>Inr None\<close> is the loop running to its end.
\<close>

fun RandomResizedCrop_loop ::
  "nat \<Rightarrow> nat \<Rightarrow> RandomResizedCrop \<Rightarrow> int \<Rightarrow> int \<Rightarrow> (nat \<Rightarrow> int) \<Rightarrow> (nat \<Rightarrow> real)
     \<Rightarrow> error + random_crop_params option" where
  "RandomResizedCrop_loop 0 k self rows cols ri ru = Inr None"
| "RandomResizedCrop_loop (Suc n) k self rows cols ri ru =
     and_then (RandomResizedCrop_candidate self rows cols (ru (2 * k)) (ru (2 * k + 1)))
       (\<lambda>(width, height).
          if 0 < width \<and> width \<le> cols \<and> 0 < height \<and> height \<le> rows then
            and_then (randint 0 (rows - height) (ri 0)) (\<lambda>i.
            and_then (randint 0 (cols - width) (ri 1)) (\<lambda>j.
            Inr (Some (RandomResizedCrop_descriptor rows cols height width i j))))
          else RandomResizedCrop_loop n (Suc k) self rows cols ri ru)"

definition RandomResizedCrop_fallback ::
  "RandomResizedCrop \<Rightarrow> int \<Rightarrow> int \<Rightarrow> error + random_crop_params" where
  "RandomResizedCrop_fallback self rows cols =
     (if rows = 0 then Inl ZeroDivisionError
      else
        let in_ratio = of_int cols / of_int rows;
            min_ratio = min (fst (ratio self)) (snd (ratio self));
            max_ratio = max (fst (ratio self)) (snd (ratio self))
        in
        and_then
          (if in_ratio < min_ratio then
             (if min_ratio = 0 then Inl ZeroDivisionError
              else Inr (cols, py_round (of_int cols / min_ratio)))
           else if in_ratio > max_ratio then Inr (py_round (of_int rows * max_ratio), rows)
           else Inr (cols, rows))
          (\<lambda>(width, height).
             let i = (rows - height) div 2;
                 j = (cols - width) div 2
             in Inr (RandomResizedCrop_descriptor rows cols height width i j)))"

definition RandomResizedCrop_get_params_dependent_on_targets ::
  "RandomResizedCrop \<Rightarrow> int \<Rightarrow> int \<Rightarrow> (nat \<Rightarrow> int) \<Rightarrow> (nat \<Rightarrow> real) \<Rightarrow> error + random_crop_params" where
  "RandomResizedCrop_get_params_dependent_on_targets self rows cols ri ru =
     and_then (RandomResizedCrop_loop 10 0 self rows cols ri ru)
       (\<lambda>found. case found of
            Some d \<Rightarrow> Inr d
          | None \<Rightarrow> RandomResizedCrop_fallback self rows cols)"

section \<open>CropNonEmptyMaskIfExists\<close>

text \<open>
  A mask is a numpy array of integers: its shape, and its entry at every index, an index
  being a list of one position for each axis. A mask of \<open>H\<close> rows and \<open>W\<close> columns has the
  shape \<open>[H, W]\<close>, and with \<open>C\<close> channels the shape \<open>[H, W, C]\<close>. The entries are integers;
  their dtype is not modelled. The constructor's \<^verbatim>\<open>isinstance\<close> tests are the types of
  \<open>ignore_values\<close> and \<open>ignore_channels\<close>.
\<close>

record ndarray =
  shape :: "nat list"
  item :: "nat list \<Rightarrow> int"

text \<open>The indices of a shape in row-major order, the order of \<^verbatim>\<open>np.argwhere\<close>.\<close>

fun indices :: "nat list \<Rightarrow> nat list list" where
  "indices [] = [[]]"
| "indices (d # ds) = concat (map (\<lambda>i. map ((#) i) (indices ds)) [0..<d])"

definition np_any :: "ndarray \<Rightarrow> bool" where
  "np_any a \<longleftrightarrow> (\<exists>idx \<in> set (indices (shape a)). item a idx \<noteq> 0)"

definition np_argwhere :: "ndarray \<Rightarrow> nat list list" where
  "np_argwhere a = filter (\<lambda>idx. item a idx \<noteq> 0) (indices (shape a))"

text \<open>\<^verbatim>\<open>np.where(np.isin(mask, values), 0, mask)\<close>.\<close>

definition np_where_isin :: "ndarray \<Rightarrow> int list \<Rightarrow> ndarray" where
  "np_where_isin a vs =
     \<lparr>shape = shape a, item = (\<lambda>idx. if item a idx \<in> set vs then 0 else item a idx)\<rparr>"

text \<open>\<^verbatim>\<open>np.take(mask, channels, axis=-1)\<close>: the listed positions of the last axis.\<close>

definition np_take_last :: "ndarray \<Rightarrow> nat list \<Rightarrow> ndarray" where
  "np_take_last a channels =
     \<lparr>shape = butlast (shape a) @ [length channels],
      item = (\<lambda>idx. item a (butlast idx @ [channels ! last idx]))\<rparr>"

text \<open>\<^verbatim>\<open>mask.sum(axis=-1)\<close>: the sum over the last axis.\<close>

definition np_sum_last :: "ndarray \<Rightarrow> ndarray" where
  "np_sum_last a =
     \<lparr>shape = butlast (shape a),
      item = (\<lambda>idx. sum_list (map (\<lambda>c. item a (idx @ [c])) [0..<last (shape a)]))\<rparr>"

text \<open>
  \<^verbatim>\<open>a |= b\<close> on arrays works in place, so \<open>b\<close> has to broadcast to the shape of \<open>a\<close>: \<open>b\<close> has
  no more axes than \<open>a\<close> and, aligned at the last axis, each extent of \<open>b\<close> is that of
  \<open>a\<close> or 1; an axis of extent 1 is read at position 0. Otherwise numpy raises
  \<^verbatim>\<open>ValueError\<close>.
\<close>

definition inplace_or :: "ndarray \<Rightarrow> ndarray \<Rightarrow> error + ndarray" where
  "inplace_or a b =
     (let k = length (shape a) - length (shape b) in
      if length (shape b) \<le> length (shape a) \<and>
         list_all2 (\<lambda>da db. db = da \<or> db = 1) (drop k (shape a)) (shape b)
      then Inr \<lparr>shape = shape a,
                item = (\<lambda>idx. or (item a idx)
                          (item b (map2 (\<lambda>db i. if db = 1 then 0 else i) (shape b) (drop k idx))))\<rparr>
      else Inl ValueError)"

record CropNonEmptyMaskIfExists =
  height :: int
  width :: int
  ignore_values :: "int list option"
  ignore_channels :: "int list option"

definition CropNonEmptyMaskIfExists_init ::
  "int \<Rightarrow> int \<Rightarrow> int list option \<Rightarrow> int list option \<Rightarrow> error + CropNonEmptyMaskIfExists" where
  "CropNonEmptyMaskIfExists_init height0 width0 ignore_values0 ignore_channels0 =
     Inr \<lparr>height = height0, width = width0, ignore_values = ignore_values0,
          ignore_channels = ignore_channels0\<rparr>"

text \<open>
  Unpacking \<^verbatim>\<open>mask.shape[:2]\<close> into two names raises \<^verbatim>\<open>ValueError\<close> for an array of fewer
  than two axes. The channels that are kept are collected with \<^verbatim>\<open>np.array\<close>; when none is
  kept that array is an empty array of floats, which \<^verbatim>\<open>np.take\<close> refuses as indices with
  \<^verbatim>\<open>TypeError\<close>.
\<close>

definition CropNonEmptyMaskIfExists_preprocess_mask ::
  "CropNonEmptyMaskIfExists \<Rightarrow> ndarray \<Rightarrow> error + ndarray" where
  "CropNonEmptyMaskIfExists_preprocess_mask self mask0 =
     (case shape mask0 of
        mask_height # mask_width # _ \<Rightarrow>
          let mask1 = (case ignore_values self of
                         None \<Rightarrow> mask0
                       | Some vs \<Rightarrow> np_where_isin mask0 vs)
          in
          and_then
            (case ignore_channels self of
               Some ignored \<Rightarrow>
                 if length (shape mask1) = 3 then
                   (let target_channels =
                          filter (\<lambda>ch. int ch \<notin> set ignored) [0..<last (shape mask1)]
                    in if target_channels = [] then Inl TypeError
                       else Inr (np_take_last mask1 target_channels))
                 else Inr mask1
             | None \<Rightarrow> Inr mask1)
            (\<lambda>mask2.
               if height self > int mask_height \<or> width self > int mask_width then Inl ValueError
               else Inr mask2)
      | _ \<Rightarrow> Inl ValueError)"

text \<open>The loop over \<^verbatim>\<open>masks[1:]\<close>: each mask is preprocessed and then or-ed into the
  accumulated one.\<close>

fun CropNonEmptyMaskIfExists_union_masks ::
  "CropNonEmptyMaskIfExists \<Rightarrow> ndarray \<Rightarrow> ndarray list \<Rightarrow> error + ndarray" where
  "CropNonEmptyMaskIfExists_union_masks self acc [] = Inr acc"
| "CropNonEmptyMaskIfExists_union_masks self acc (m # ms) =
     and_then (CropNonEmptyMaskIfExists_preprocess_mask self m) (\<lambda>m'.
     and_then (inplace_or acc m') (\<lambda>acc'.
     CropNonEmptyMaskIfExists_union_masks self acc' ms))"

record mask_kwargs =
  kw_mask :: "ndarray option"
  kw_masks :: "ndarray list option"

definition CropNonEmptyMaskIfExists_find_mask ::
  "CropNonEmptyMaskIfExists \<Rightarrow> mask_kwargs \<Rightarrow> error + ndarray" where
  "CropNonEmptyMaskIfExists_find_mask self kwargs =
     (case kw_mask kwargs of
        Some m \<Rightarrow> CropNonEmptyMaskIfExists_preprocess_mask self m
      | None \<Rightarrow>
          (case kw_masks kwargs of
             Some (m # ms) \<Rightarrow>
               and_then (CropNonEmptyMaskIfExists_preprocess_mask self m) (\<lambda>acc.
               CropNonEmptyMaskIfExists_union_masks self acc ms)
           | _ \<Rightarrow> Inl RuntimeError))"

text \<open>\<^verbatim>\<open>mask.sum(axis=-1) if mask.ndim == THREE else mask\<close>.\<close>

definition sum_channels :: "ndarray \<Rightarrow> ndarray" where
  "sum_channels mask1 = (if length (shape mask1) = 3 then np_sum_last mask1 else mask1)"

text \<open>
  The integer draws are taken in the order of the calls: with a non-zero entry in the
  mask, one for \<^verbatim>\<open>random.choice\<close> and one for each \<^verbatim>\<open>random.randint\<close>; otherwise the two
  of \<^verbatim>\<open>random.randint\<close>. \<^verbatim>\<open>random.choice\<close> raises \<^verbatim>\<open>IndexError\<close> on an empty sequence, and
  unpacking an index into \<^verbatim>\<open>y, x\<close> raises \<^verbatim>\<open>ValueError\<close> unless it has two positions.
\<close>

definition CropNonEmptyMaskIfExists_update_params ::
  "CropNonEmptyMaskIfExists \<Rightarrow> mask_kwargs \<Rightarrow> (nat \<Rightarrow> int) \<Rightarrow> error + crop_coords" where
  "CropNonEmptyMaskIfExists_update_params self kwargs ri =
     and_then (CropNonEmptyMaskIfExists_find_mask self kwargs) (\<lambda>mask1.
     case shape mask1 of
       mask_height # mask_width # _ \<Rightarrow>
         and_then
           (if np_any mask1 then
              and_then (choice (np_argwhere (sum_channels mask1)) (ri 0)) (\<lambda>yx.
              case yx of
                [y, x] \<Rightarrow>
                  and_then (randint 0 (width self - 1) (ri 1)) (\<lambda>dx.
                  and_then (randint 0 (height self - 1) (ri 2)) (\<lambda>dy.
                  Inr (np_clip (int x - dx) 0 (int mask_width - width self),
                       np_clip (int y - dy) 0 (int mask_height - height self))))
              | _ \<Rightarrow> Inl ValueError)
            else
              and_then (randint 0 (int mask_width - width self) (ri 0)) (\<lambda>x_min0.
              and_then (randint 0 (int mask_height - height self) (ri 1)) (\<lambda>y_min0.
              Inr (x_min0, y_min0))))
           (\<lambda>(x_min0, y_min0).
              Inr \<lparr>x_min = x_min0, x_max = x_min0 + width self,
                   y_min = y_min0, y_max = y_min0 + height self\<rparr>)
     | _ \<Rightarrow> Inl ValueError)"

section \<open>The rebalancing rule as the specification words it\<close>

text \<open>
  The specification computes the regained amount from the combined crop of the axis:
  "regain = |original combined crop on that axis| + 1", split as evenly as possible with
  the extra unit to the first side, each side reduced by its portion, a side's crop never
  negative and the deficit shifted to the other side. This definition follows those
  words; it is compared with \<open>CropAndPad__prevent_zero\<close>, which follows the code.
\<close>

definition prevent_zero_spec :: "int \<Rightarrow> int \<Rightarrow> int \<times> int" where
  "prevent_zero_spec val1 val2 =
     (let regain = \<bar>val1 + val2\<bar> + 1;
          regain1 = regain - regain div 2;
          regain2 = regain div 2;
          (regain1, regain2) =
             (if regain1 > val1 then (val1, regain2 + (regain1 - val1))
              else if regain2 > val2 then (regain1 + (regain2 - val2), val2)
              else (regain1, regain2))
      in (max (val1 - regain1) 0, max (val2 - regain2) 0))"

section \<open>The bounds of a mask-guided crop\<close>

text \<open>A crop of the configured size whose offsets are valid for a mask of \<open>H\<close> rows and
  \<open>W\<close> columns.\<close>

definition in_bounds :: "CropNonEmptyMaskIfExists \<Rightarrow> int \<Rightarrow> int \<Rightarrow> crop_coords \<Rightarrow> bool" where
  "in_bounds self H W d \<longleftrightarrow>
     0 \<le> x_min d \<and> x_min d \<le> W - width self \<and> 0 \<le> y_min d \<and> y_min d \<le> H - height self \<and>
     x_max d = x_min d + width self \<and> y_max d = y_min d + height self"

section \<open>The fallback of RandomResizedCrop as the specification words it\<close>

text \<open>The test of the loop body on a candidate \<open>(width, height)\<close>.\<close>

definition accepted :: "int \<Rightarrow> int \<Rightarrow> int \<times> int \<Rightarrow> bool" where
  "accepted rows cols c \<longleftrightarrow> 0 < fst c \<and> fst c \<le> cols \<and> 0 < snd c \<and> snd c \<le> rows"

text \<open>
  The documented fallback, as \<open>(crop_width, crop_height)\<close>: "if frame-aspect < min-ratio,
  width=cols, height=round(width/min-ratio); if frame-aspect > max-ratio, height=rows,
  width=round(height*max-ratio); else width=cols, height=rows".
\<close>

definition fallback_spec :: "real \<times> real \<Rightarrow> int \<Rightarrow> int \<Rightarrow> int \<times> int" where
  "fallback_spec r rows cols =
     (if of_int cols / of_int rows < min (fst r) (snd r)
        then (cols, py_round (of_int cols / min (fst r) (snd r)))
      else if of_int cols / of_int rows > max (fst r) (snd r)
        then (py_round (of_int rows * max (fst r) (snd r)), rows)
      else (cols, rows))"

section \<open>The rectangle of a random-crop descriptor\<close>

text \<open>
  Modelled from the spec: \<^verbatim>\<open>get_random_crop_coords\<close> of
  \<^verbatim>\<open>albumentations/augmentations/crops/functional.py\<close>, which turns a descriptor into the
  pixel rectangle, is not among the sources. The specification has the fixed random crop
  "scale draws by (rows-h) and (cols-w) to get integer offsets", with
  "offset = floor(draw * (10-4))" in its example.
\<close>

definition get_random_crop_coords ::
  "int \<Rightarrow> int \<Rightarrow> int \<Rightarrow> int \<Rightarrow> real \<Rightarrow> real \<Rightarrow> int \<times> int \<times> int \<times> int" where
  "get_random_crop_coords height0 width0 crop_height0 crop_width0 h_start0 w_start0 =
     (let y1 = py_int (of_int (height0 - crop_height0) * h_start0);
          y2 = y1 + crop_height0;
          x1 = py_int (of_int (width0 - crop_width0) * w_start0);
          x2 = x1 + crop_width0
      in (x1, y1, x2, y2))"

text \<open>The normalized bounds of the crop of a descriptor over a frame.\<close>

definition crop_bounds_norm :: "random_crop_params \<Rightarrow> int \<Rightarrow> int \<Rightarrow> bbox" where
  "crop_bounds_norm d rows cols =
     (case get_random_crop_coords rows cols (crop_height d) (crop_width d) (h_start d) (w_start d) of
        (x1, y1, x2, y2) \<Rightarrow>
          (of_int x1 / of_int cols, of_int y1 / of_int rows,
           of_int x2 / of_int cols, of_int y2 / of_int rows))"

definition contains_rect :: "bbox \<Rightarrow> bbox \<Rightarrow> bool" where
  "contains_rect outer inner =
     (case outer of (ox, oy, ox2, oy2) \<Rightarrow> case inner of (x, y, x2, y2) \<Rightarrow>
        ox \<le> x \<and> oy \<le> y \<and> x2 \<le> ox2 \<and> y2 \<le> oy2)"

section \<open>The rebalancing rule, amended\<close>

text \<open>
  The rule with the regained amount taken from the frame extent of the axis: the regain
  is \<open>extent + 1\<close>, split as evenly as possible with the extra unit to the first side. A
  first portion larger than the first side's crop takes all of that crop and moves the
  deficit to the second side; otherwise a second portion larger than the second side's
  crop takes all of that crop and moves the deficit to the first side; otherwise each
  side gives its portion. No crop is left negative.
\<close>

definition rebalanced :: "int \<Rightarrow> int \<Rightarrow> int \<Rightarrow> int \<times> int" where
  "rebalanced extent val1 val2 =
     (let regain = extent + 1;
          portion1 = (regain + 1) div 2;
          portion2 = regain div 2
      in if portion1 > val1 then (0, max (val2 - (regain - val1)) 0)
         else if portion2 > val2 then (max (val1 - (regain - val2)) 0, 0)
         else (val1 - portion1, val2 - portion2))"

section \<open>The offsets of a mask-guided crop and their distribution\<close>

text \<open>
  The offsets \<open>(x_min, y_min)\<close> that sampling returns when the first two integer draws of
  the random source are the pair \<open>r\<close>; \<open>None\<close> when it raises.
\<close>

definition sampled_offsets ::
  "CropNonEmptyMaskIfExists \<Rightarrow> mask_kwargs \<Rightarrow> int \<times> int \<Rightarrow> (int \<times> int) option" where
  "sampled_offsets self kwargs r =
     (case CropNonEmptyMaskIfExists_update_params self kwargs (\<lambda>k. if k = 0 then fst r else snd r) of
        Inl e \<Rightarrow> None
      | Inr d \<Rightarrow> Some (x_min d, y_min d))"

text \<open>The probability of \<open>P\<close> for a value drawn uniformly from the finite set \<open>R\<close>.\<close>

definition prob :: "'a set \<Rightarrow> ('a \<Rightarrow> bool) \<Rightarrow> real" where
  "prob R P = real (card {r \<in> R. P r}) / real (card R)"

section \<open>Facts about the primitives\<close>

lemma replicate_four: "replicate 4 v = [v, v, v, v]"
  by (simp add: numeral_eq_Suc)

lemma py_int_floor: "0 \<le> x \<Longrightarrow> py_int x = \<lfloor>x\<rfloor>"
  by (simp add: py_int_def)

lemma py_round_lower: "of_int n \<le> x \<Longrightarrow> n \<le> py_round x"
proof -
  assume "of_int n \<le> x"
  then have "n \<le> \<lfloor>x\<rfloor>" by (simp add: le_floor_iff)
  then show ?thesis by (auto simp: py_round_def Let_def)
qed

lemma py_round_upper: "x \<le> of_int n \<Longrightarrow> py_round x \<le> n"
proof -
  assume a: "x \<le> of_int n"
  show ?thesis
  proof (cases "x = of_int n")
    case True
    then show ?thesis by (simp add: py_round_def Let_def)
  next
    case False
    with a have "x < of_int n" by simp
    then have "\<lfloor>x\<rfloor> < n" by (simp add: floor_less_iff)
    then show ?thesis by (auto simp: py_round_def Let_def)
  qed
qed

lemma randint_ok: "a \<le> b \<Longrightarrow> \<exists>v. randint a b r = Inr v \<and> a \<le> v \<and> v \<le> b"
proof -
  assume ab: "a \<le> b"
  then have p: "0 < b - a + 1" by simp
  have l: "0 \<le> r mod (b - a + 1)" using p by simp
  have "r mod (b - a + 1) < b - a + 1" using p by (rule pos_mod_bound)
  then have u: "r mod (b - a + 1) \<le> b - a" by linarith
  show ?thesis using ab l u by (simp add: randint_def)
qed

lemma randint_range: "randint a b r = Inr v \<Longrightarrow> a \<le> v \<and> v \<le> b"
  using randint_ok [of a b r] by (cases "a \<le> b") (auto simp: randint_def)

lemma randint_onto: "a \<le> v \<Longrightarrow> v \<le> b \<Longrightarrow> randint a b (v - a) = Inr v"
  by (simp add: randint_def)

lemma and_then_Inr: "and_then (Inr v) f = f v"
  by (simp add: and_then_def)

lemma and_then_Inl: "and_then (Inl e) f = Inl e"
  by (simp add: and_then_def)

lemma choice_ok: "xs \<noteq> [] \<Longrightarrow> \<exists>v. choice xs r = Inr v \<and> v \<in> set xs"
proof -
  assume ne: "xs \<noteq> []"
  then have p: "0 < int (length xs)" by simp
  have "r mod int (length xs) < int (length xs)" using p by (rule pos_mod_bound)
  moreover have "0 \<le> r mod int (length xs)" using p by simp
  ultimately have "nat (r mod int (length xs)) < length xs" by linarith
  then show ?thesis using ne by (simp add: choice_def)
qed

lemma py_int_frac_upper:
  assumes "0 \<le> f" "f < 1" "1 \<le> n"
  shows "0 \<le> py_int (f * of_int n) \<and> py_int (f * of_int n) \<le> n - 1"
proof -
  have nn: "0 \<le> f * of_int n" using assms by simp
  have "f * of_int n < of_int n" using assms by simp
  then have "\<lfloor>f * of_int n\<rfloor> < n" by (simp add: floor_less_iff)
  moreover have "0 \<le> \<lfloor>f * of_int n\<rfloor>" using nn by simp
  ultimately show ?thesis using nn by (simp add: py_int_def)
qed

lemma py_int_compl_upper:
  assumes "0 \<le> f" "f < 1" "1 \<le> n"
  shows "py_int ((1 - f) * of_int n) \<le> n"
proof -
  have nn: "0 \<le> (1 - f) * of_int n" using assms by simp
  have "(1 - f) * of_int n \<le> 1 * of_int n"
    using assms by (intro mult_right_mono) simp_all
  then have "\<lfloor>(1 - f) * of_int n\<rfloor> \<le> n" by (simp add: floor_le_iff)
  then show ?thesis using nn by (simp add: py_int_def)
qed

lemma py_round_of_int: "py_round (of_int n) = n"
  by (simp add: py_round_def)

section \<open>CropAndPad: construction\<close>

text \<open>
  Claim C8. Constructing CropAndPad raises (the configuration error is Python's
  \<^verbatim>\<open>ValueError\<close>) exactly when both \<open>px\<close> and \<open>percent\<close> are set or neither is; with exactly
  one of them set the constructor returns the instance, holding the arguments. The test
  is made by the constructor, before any sampling.
\<close>

theorem CropAndPad_init_raises_iff:
  "(CropAndPad_init px0 percent0 pm c cm k s i = Inl ValueError \<longleftrightarrow>
      (px0 \<noteq> None \<and> percent0 \<noteq> None) \<or> (px0 = None \<and> percent0 = None)) \<and>
   ((\<exists>e. CropAndPad_init px0 percent0 pm c cm k s i = Inl e) \<longleftrightarrow>
      (px0 \<noteq> None \<and> percent0 \<noteq> None) \<or> (px0 = None \<and> percent0 = None)) \<and>
   ((px0 = None) \<noteq> (percent0 = None) \<longrightarrow>
      CropAndPad_init px0 percent0 pm c cm k s i =
        Inr \<lparr>px = px0, percent = percent0, pad_mode = pm, pad_cval = c, pad_cval_mask = cm,
             keep_size = k, sample_independently = s, interpolation = i\<rparr>)"
  by (auto simp: CropAndPad_init_def)

theorem CropAndPad_init_raises_iff_witness:
  "(Some (PxInt (- 2)) = None) \<noteq> ((None :: percent_spec option) = None) \<and>
   CropAndPad_init (Some (PxInt (- 2))) None 0 (PadNum (IntNum 0)) (PadNum (IntNum 0)) True True 1 =
     Inr \<lparr>px = Some (PxInt (- 2)), percent = None, pad_mode = 0, pad_cval = PadNum (IntNum 0),
          pad_cval_mask = PadNum (IntNum 0), keep_size = True, sample_independently = True,
          interpolation = 1\<rparr> \<and>
   CropAndPad_init (Some (PxInt (- 2))) (Some (PercentFloat (- 1 / 10))) 0 (PadNum (IntNum 0))
       (PadNum (IntNum 0)) True True 1 = Inl ValueError \<and>
   CropAndPad_init None None 0 (PadNum (IntNum 0)) (PadNum (IntNum 0)) True True 1 = Inl ValueError"
  using CropAndPad_init_raises_iff [of "Some (PxInt (- 2))" None 0 "PadNum (IntNum 0)"
      "PadNum (IntNum 0)" True True 1]
    CropAndPad_init_raises_iff [of "Some (PxInt (- 2))" "Some (PercentFloat (- 1 / 10))" 0
      "PadNum (IntNum 0)" "PadNum (IntNum 0)" True True 1]
    CropAndPad_init_raises_iff [of None None 0 "PadNum (IntNum 0)" "PadNum (IntNum 0)" True True 1]
  by simp

section \<open>CropAndPad: zero avoidance\<close>

lemma regain_split:
  "(if r div 2 + r div 2 < r then r div 2 + 1 else r div 2) = r - r div (2::int)"
  by presburger

text \<open>
  Claim C1, at an input where the code leaves it. With \<^verbatim>\<open>px = -11\<close> on a frame of 10 by 10
  every side asks for a crop of 11. The rebalancing regains \<open>10 + 1\<close> pixels of the 22
  requested on each axis and leaves crops of 5 and 6, so the crop rectangle
  \<open>[left, top, width - right, height - bottom]\<close> is \<open>[5, 5, 4, 4]\<close>: its height and its
  width are \<open>-1\<close>, for every random source. The class documentation says that the
  transformation never crops below a height or width of 1.
\<close>

theorem CropAndPad_crop_below_one:
  "CropAndPad_get_params_dependent_on_targets
     \<lparr>px = Some (PxInt (- 11)), percent = None, pad_mode = 0, pad_cval = PadNum (IntNum 0),
      pad_cval_mask = PadNum (IntNum 0), keep_size = True, sample_independently = True,
      interpolation = 1\<rparr> 10 10 ri ru =
   Inr \<lparr>crop_params = Some [5, 5, 4, 4], pad_params = None, pad_value = IntNum 0,
        pad_value_mask = IntNum 0, result_rows = - 1, result_cols = - 1\<rparr>"
  unfolding CropAndPad_get_params_dependent_on_targets_def CropAndPad_new_params_def
    CropAndPad_get_px_params_def
  by (simp add: replicate_four CropAndPad__prevent_zero_def Let_def)

text \<open>
  Where the rebalancing does keep one pixel: as long as the combined crop on each axis is
  at most twice the frame extent, the rectangle left is at least 1 by 1.
\<close>

lemma prevent_zero_axis:
  assumes "0 \<le> v1" "0 \<le> v2" "1 \<le> n" "v1 + v2 \<le> 2 * n"
  shows "max (fst (CropAndPad__prevent_zero v1 v2 n)) 0 + max (snd (CropAndPad__prevent_zero v1 v2 n)) 0
           \<le> n - 1"
  using assms unfolding CropAndPad__prevent_zero_def Let_def regain_split
  by (auto simp: split_def)

lemma CropAndPad_prevent_zero_sufficient:
  assumes "0 \<le> t" "0 \<le> b" "0 \<le> l" "0 \<le> r" "1 \<le> h" "1 \<le> w"
    and "t + b \<le> 2 * h" "l + r \<le> 2 * w"
  shows "\<exists>t' r' b' l'. CropAndPad_prevent_zero [t, r, b, l] h w = Inr [t', r', b', l'] \<and>
           1 \<le> h - (t' + b') \<and> 1 \<le> w - (l' + r') \<and> 0 \<le> t' \<and> 0 \<le> r' \<and> 0 \<le> b' \<and> 0 \<le> l'"
  using prevent_zero_axis [OF assms(1,2,5,7)] prevent_zero_axis [OF assms(3,4,6,8)] assms
  by (auto simp: Let_def split_def)

text \<open>
  Claim C2 as stated fails: for the constant \<open>-6\<close> on a frame of 10 by 10 the code does not
  regain 13 split 7/6. The per-side crops it returns, \<open>[0, 1, 1, 0]\<close> for top, right,
  bottom, left, are not those of the specification's arithmetic (all 0).
\<close>

theorem CropAndPad_regain_counterexample:
  "CropAndPad_prevent_zero [6, 6, 6, 6] 10 10 = Inr [0, 1, 1, 0] \<and>
   CropAndPad_prevent_zero [6, 6, 6, 6] 10 10 \<noteq>
     Inr [fst (prevent_zero_spec 6 6), snd (prevent_zero_spec 6 6),
          snd (prevent_zero_spec 6 6), fst (prevent_zero_spec 6 6)]"
  by (simp add: CropAndPad__prevent_zero_def prevent_zero_spec_def)

lemma portions_sum: "(g + 1) div 2 + g div 2 = (g::int)"
  by presburger

lemma first_portion: "g - g div 2 = (g + 1) div (2::int)"
  by presburger

lemma rebalanced_cases:
  obtains (first) "(n + 1 + 1) div 2 > v1" "rebalanced n v1 v2 = (0, max (v2 - (n + 1 - v1)) 0)"
  | (second) "(n + 1 + 1) div 2 \<le> v1" "(n + 1) div 2 > v2"
      "rebalanced n v1 v2 = (max (v1 - (n + 1 - v2)) 0, 0)"
  | (both) "(n + 1 + 1) div 2 \<le> v1" "(n + 1) div 2 \<le> v2"
      "rebalanced n v1 v2 = (v1 - (n + 1 + 1) div 2, v2 - (n + 1) div 2)"
  unfolding rebalanced_def Let_def by (cases "(n + 1 + 1) div 2 > v1"; cases "(n + 1) div 2 > v2") simp_all

lemma rebalanced_remaining:
  assumes "0 \<le> v1" "0 \<le> v2" "1 \<le> n" "v1 + v2 \<le> 2 * n"
  shows "0 \<le> fst (rebalanced n v1 v2) \<and> 0 \<le> snd (rebalanced n v1 v2) \<and>
         1 \<le> n - (fst (rebalanced n v1 v2) + snd (rebalanced n v1 v2))"
proof (cases rule: rebalanced_cases [where n = n and ?v1.0 = v1 and ?v2.0 = v2])
  case first
  then show ?thesis using assms by simp
next
  case second
  then show ?thesis using assms by simp
next
  case both
  have "v1 - (n + 1 + 1) div 2 + (v2 - (n + 1) div 2) = v1 + v2 - (n + 1)"
    using portions_sum [of "n + 1"] by linarith
  with both show ?thesis using assms by simp
qed

lemma rebalanced_total:
  assumes "0 \<le> v1" "0 \<le> v2" "1 \<le> n" "n - (v1 + v2) < 1"
  shows "fst (rebalanced n v1 v2) + snd (rebalanced n v1 v2) = max (v1 + v2 - (n + 1)) 0"
proof (cases rule: rebalanced_cases [where n = n and ?v1.0 = v1 and ?v2.0 = v2])
  case first
  then show ?thesis using assms by simp
next
  case second
  then show ?thesis using assms by simp
next
  case both
  have "v1 - (n + 1 + 1) div 2 + (v2 - (n + 1) div 2) = v1 + v2 - (n + 1)"
    using portions_sum [of "n + 1"] by linarith
  moreover have "0 \<le> v1 - (n + 1 + 1) div 2 + (v2 - (n + 1) div 2)" using both by linarith
  ultimately show ?thesis using both by simp
qed

text \<open>The helper in closed form, for every argument.\<close>

lemma prevent_zero_closed_form:
  "CropAndPad__prevent_zero val1 val2 max_val =
     (let regain = \<bar>max_val\<bar> + 1; regain1 = regain - regain div 2; regain2 = regain div 2 in
      if regain1 > val1 then (0, val2 - (regain - val1))
      else if regain2 > val2 then (val1 - (regain - val2), 0)
      else (val1 - regain1, val2 - regain2))"
  unfolding CropAndPad__prevent_zero_def Let_def regain_split
  by (simp add: split_def)

lemma rebalanced_axis:
  assumes "0 \<le> v1" "0 \<le> v2" "1 \<le> n"
  shows "(max (fst (CropAndPad__prevent_zero v1 v2 n)) 0, max (snd (CropAndPad__prevent_zero v1 v2 n)) 0)
           = rebalanced n v1 v2"
proof -
  have n: "\<bar>n\<bar> = n" using assms(3) by simp
  have c: "CropAndPad__prevent_zero v1 v2 n =
      (if (n + 1 + 1) div 2 > v1 then (0, v2 - (n + 1 - v1))
       else if (n + 1) div 2 > v2 then (v1 - (n + 1 - v2), 0)
       else (v1 - (n + 1 + 1) div 2, v2 - (n + 1) div 2))"
    unfolding prevent_zero_closed_form Let_def n first_portion ..
  show ?thesis
  proof (cases rule: rebalanced_cases [where n = n and ?v1.0 = v1 and ?v2.0 = v2])
    case first
    then show ?thesis unfolding c by simp
  next
    case second
    then show ?thesis unfolding c by simp
  next
    case both
    then show ?thesis unfolding c by simp
  qed
qed

text \<open>\<^verbatim>\<open>_prevent_zero\<close> rebalances the vertical crops against the height and the horizontal
  ones against the width, each axis only if less than one pixel would remain on it.\<close>

lemma prevent_zero_by_axis:
  assumes "0 \<le> t" "0 \<le> b" "0 \<le> l" "0 \<le> r" "1 \<le> h" "1 \<le> w"
  shows "CropAndPad_prevent_zero [t, r, b, l] h w =
     Inr [fst (if h - (t + b) < 1 then rebalanced h t b else (t, b)),
          snd (if w - (l + r) < 1 then rebalanced w l r else (l, r)),
          snd (if h - (t + b) < 1 then rebalanced h t b else (t, b)),
          fst (if w - (l + r) < 1 then rebalanced w l r else (l, r))]"
proof -
  note v = rebalanced_axis [OF assms(1,2,5), symmetric]
  note hz = rebalanced_axis [OF assms(3,4,6), symmetric]
  show ?thesis
    using assms(1-4) by (simp add: Let_def split_def v hz)
qed

text \<open>
  Claim C2, amended. Let the four crops be non-negative, the frame at least 1 by 1, and the
  combined crop on each axis at most twice the frame extent. On an axis where less than
  one pixel would remain, \<^verbatim>\<open>_prevent_zero\<close> returns the crops of \<open>rebalanced\<close> at the frame
  extent of that axis (the height for top and bottom, the width for left and right): the
  regain is the extent plus 1, not the combined crop plus 1, split evenly with the extra
  unit to the first side, a portion beyond a side's crop shifted to the other side, no
  crop negative. The crops left on such an axis sum to the combined crop less the regain,
  or to 0 if that is negative, and at least one pixel remains on each axis. On an axis
  where a pixel remains anyway the crops are returned unchanged. For the constant \<open>-6\<close> on
  a frame of 10 by 10 the regain is 11, split 6/5, and the crops are top 0, right 1,
  bottom 1, left 0: the crop rectangle is \<open>[0, 0, 9, 9]\<close>.
\<close>

theorem CropAndPad_prevent_zero_rebalances:
  assumes "0 \<le> t" "0 \<le> b" "0 \<le> l" "0 \<le> r" "1 \<le> h" "1 \<le> w"
    and "t + b \<le> 2 * h" "l + r \<le> 2 * w"
  shows "\<exists>t' r' b' l'.
     CropAndPad_prevent_zero [t, r, b, l] h w = Inr [t', r', b', l'] \<and>
     (t', b') = (if h - (t + b) < 1 then rebalanced h t b else (t, b)) \<and>
     (l', r') = (if w - (l + r) < 1 then rebalanced w l r else (l, r)) \<and>
     (h - (t + b) < 1 \<longrightarrow> t' + b' = max (t + b - (h + 1)) 0) \<and>
     (w - (l + r) < 1 \<longrightarrow> l' + r' = max (l + r - (w + 1)) 0) \<and>
     0 \<le> t' \<and> 0 \<le> r' \<and> 0 \<le> b' \<and> 0 \<le> l' \<and>
     1 \<le> h - (t' + b') \<and> 1 \<le> w - (l' + r') \<and>
     rebalanced 10 6 6 = (6 - (11 + 1) div 2, 6 - 11 div 2) \<and>
     CropAndPad_prevent_zero [6, 6, 6, 6] 10 10 = Inr [0, 1, 1, 0] \<and>
     (\<exists>d. CropAndPad_get_params_dependent_on_targets
           \<lparr>px = Some (PxInt (- 6)), percent = None, pad_mode = 0, pad_cval = PadNum (IntNum 0),
            pad_cval_mask = PadNum (IntNum 0), keep_size = True, sample_independently = True,
            interpolation = 1\<rparr> 10 10 ri ru = Inr d \<and> crop_params d = Some [0, 0, 9, 9])"
proof -
  let ?v = "if h - (t + b) < 1 then rebalanced h t b else (t, b)"
  let ?z = "if w - (l + r) < 1 then rebalanced w l r else (l, r)"
  have e: "CropAndPad_prevent_zero [t, r, b, l] h w = Inr [fst ?v, snd ?z, snd ?v, fst ?z]"
    using prevent_zero_by_axis [OF assms(1-6)] .
  have v1: "h - (t + b) < 1 \<longrightarrow> fst ?v + snd ?v = max (t + b - (h + 1)) 0"
    using rebalanced_total [OF assms(1,2,5)] by simp
  have z1: "w - (l + r) < 1 \<longrightarrow> fst ?z + snd ?z = max (l + r - (w + 1)) 0"
    using rebalanced_total [OF assms(3,4,6)] by simp
  have v2: "0 \<le> fst ?v \<and> 0 \<le> snd ?v \<and> 1 \<le> h - (fst ?v + snd ?v)"
    using rebalanced_remaining [OF assms(1,2,5,7)] assms(1,2) by auto
  have z2: "0 \<le> fst ?z \<and> 0 \<le> snd ?z \<and> 1 \<le> w - (fst ?z + snd ?z)"
    using rebalanced_remaining [OF assms(3,4,6,8)] assms(3,4) by auto
  define t' r' b' l' where "t' = fst ?v" and "r' = snd ?z" and "b' = snd ?v" and "l' = fst ?z"
  have p1: "(t', b') = ?v" and p2: "(l', r') = ?z"
    by (simp_all only: t'_def r'_def b'_def l'_def prod.collapse)
  have c1: "CropAndPad_prevent_zero [t, r, b, l] h w = Inr [t', r', b', l']"
    using e by (simp only: t'_def r'_def b'_def l'_def)
  have c2: "h - (t + b) < 1 \<longrightarrow> t' + b' = max (t + b - (h + 1)) 0"
    using v1 by (simp only: t'_def b'_def)
  have c3: "w - (l + r) < 1 \<longrightarrow> l' + r' = max (l + r - (w + 1)) 0"
    using z1 by (simp only: l'_def r'_def)
  have c4: "0 \<le> t' \<and> 0 \<le> b' \<and> 1 \<le> h - (t' + b')"
    using v2 by (simp only: t'_def b'_def)
  have c5: "0 \<le> l' \<and> 0 \<le> r' \<and> 1 \<le> w - (l' + r')"
    using z2 by (simp only: l'_def r'_def)
  have x1: "rebalanced 10 6 6 = (6 - (11 + 1) div 2, 6 - 11 div 2)"
    by (simp add: rebalanced_def)
  have x2: "CropAndPad_prevent_zero [6, 6, 6, 6] 10 10 = Inr [0, 1, 1, 0]"
    by (simp add: CropAndPad__prevent_zero_def)
  have x3: "\<exists>d. CropAndPad_get_params_dependent_on_targets
           \<lparr>px = Some (PxInt (- 6)), percent = None, pad_mode = 0, pad_cval = PadNum (IntNum 0),
            pad_cval_mask = PadNum (IntNum 0), keep_size = True, sample_independently = True,
            interpolation = 1\<rparr> 10 10 ri ru = Inr d \<and> crop_params d = Some [0, 0, 9, 9]"
    unfolding CropAndPad_get_params_dependent_on_targets_def CropAndPad_new_params_def
      CropAndPad_get_px_params_def
    by (simp add: replicate_four CropAndPad__prevent_zero_def Let_def)
  from c1 p1 p2 c2 c3 c4 c5 x1 x2 x3 show ?thesis by blast
qed

theorem CropAndPad_prevent_zero_rebalances_witness:
  "CropAndPad_prevent_zero [6, 6, 6, 6] 10 10 = Inr [0, 1, 1, 0] \<and>
   CropAndPad_prevent_zero [3, 0, 2, 9] 4 6 = Inr [0, 0, 0, 2] \<and>
   CropAndPad_prevent_zero [1, 5, 1, 5] 4 6 = Inr [1, 2, 1, 1]"
proof -
  have a: "rebalanced 10 6 6 = (0, 1)" "rebalanced 4 3 2 = (0, 0)" "rebalanced 6 9 0 = (2, 0)"
    "rebalanced 6 5 5 = (1, 2)"
    by (simp_all add: rebalanced_def)
  from CropAndPad_prevent_zero_rebalances [of 6 6 6 6 10 10]
  have "CropAndPad_prevent_zero [6, 6, 6, 6] 10 10 = Inr [0, 1, 1, 0]" by (auto simp: a)
  moreover from CropAndPad_prevent_zero_rebalances [of 3 2 9 0 4 6]
  have "CropAndPad_prevent_zero [3, 0, 2, 9] 4 6 = Inr [0, 0, 0, 2]" by (auto simp: a)
  moreover from CropAndPad_prevent_zero_rebalances [of 1 1 5 5 4 6]
  have "CropAndPad_prevent_zero [1, 5, 1, 5] 4 6 = Inr [1, 2, 1, 1]" by (auto simp: a)
  ultimately show ?thesis by simp
qed

section \<open>RandomCropFromBorders: the sampled rectangle\<close>

text \<open>One axis of the sampling: the first draw and then the second, whose lower bound is
  at least the first value plus one and at most the frame extent.\<close>

lemma border_axis:
  assumes "0 \<le> lo" "lo < 1" "0 \<le> hi" "hi < 1" "1 \<le> n"
  shows "\<exists>a b. randint 0 (py_int (lo * of_int n)) r0 = Inr a \<and>
           randint (max (a + 1) (py_int ((1 - hi) * of_int n))) n r1 = Inr b \<and>
           0 \<le> a \<and> a < b \<and> b \<le> n"
proof -
  from py_int_frac_upper [OF assms(1,2,5)]
  have u: "0 \<le> py_int (lo * of_int n)" "py_int (lo * of_int n) \<le> n - 1" by simp_all
  from randint_ok [OF u(1), of r0] obtain a
    where a: "randint 0 (py_int (lo * of_int n)) r0 = Inr a" "0 \<le> a" "a \<le> py_int (lo * of_int n)"
    by blast
  have "max (a + 1) (py_int ((1 - hi) * of_int n)) \<le> n"
    using a u py_int_compl_upper [OF assms(3,4,5)] by simp
  from randint_ok [OF this, of r1] obtain b
    where b: "randint (max (a + 1) (py_int ((1 - hi) * of_int n))) n r1 = Inr b"
      "max (a + 1) (py_int ((1 - hi) * of_int n)) \<le> b" "b \<le> n"
    by blast
  from a b show ?thesis by auto
qed

text \<open>
  Claim C7. With the four border fractions in \<open>[0, 1)\<close> and a frame of at least one row and
  one column, sampling returns a rectangle for every random source: none of the four
  \<^verbatim>\<open>randint\<close> calls has an empty range (the only exception the function can raise). The
  rectangle has \<open>x_min + 1 \<le> x_max\<close> and \<open>y_min + 1 \<le> y_max\<close>, and lies in the frame.
\<close>

theorem RandomCropFromBorders_nonempty:
  assumes "0 \<le> crop_left self" "crop_left self < 1" "0 \<le> crop_right self" "crop_right self < 1"
    "0 \<le> crop_top self" "crop_top self < 1" "0 \<le> crop_bottom self" "crop_bottom self < 1"
    "1 \<le> rows" "1 \<le> cols"
  shows "\<exists>d. RandomCropFromBorders_get_params_dependent_on_targets self rows cols ri = Inr d \<and>
           x_min d < x_max d \<and> y_min d < y_max d \<and>
           x_min d + 1 \<le> x_max d \<and> y_min d + 1 \<le> y_max d \<and>
           0 \<le> x_min d \<and> x_max d \<le> cols \<and> 0 \<le> y_min d \<and> y_max d \<le> rows"
proof -
  from border_axis [OF assms(1,2,3,4,10), of "ri 0" "ri 1"] obtain a b where
    x: "randint 0 (py_int (crop_left self * of_int cols)) (ri 0) = Inr a"
       "randint (max (a + 1) (py_int ((1 - crop_right self) * of_int cols))) cols (ri 1) = Inr b"
       "0 \<le> a" "a < b" "b \<le> cols"
    by blast
  from border_axis [OF assms(5,6,7,8,9), of "ri 2" "ri 3"] obtain c d where
    y: "randint 0 (py_int (crop_top self * of_int rows)) (ri 2) = Inr c"
       "randint (max (c + 1) (py_int ((1 - crop_bottom self) * of_int rows))) rows (ri 3) = Inr d"
       "0 \<le> c" "c < d" "d \<le> rows"
    by blast
  have "RandomCropFromBorders_get_params_dependent_on_targets self rows cols ri =
      Inr \<lparr>x_min = a, x_max = b, y_min = c, y_max = d\<rparr>"
    using x(1,2) y(1,2)
    by (simp add: RandomCropFromBorders_get_params_dependent_on_targets_def and_then_Inr)
  with x y show ?thesis by simp
qed

theorem RandomCropFromBorders_nonempty_witness:
  "\<exists>d. RandomCropFromBorders_get_params_dependent_on_targets
          \<lparr>crop_left = 1 / 10, crop_right = 1 / 10, crop_top = 1 / 10, crop_bottom = 1 / 10\<rparr>
          10 10 (\<lambda>_. 0) = Inr d \<and>
        x_min d < x_max d \<and> y_min d < y_max d"
  using RandomCropFromBorders_nonempty
    [of "\<lparr>crop_left = 1 / 10, crop_right = 1 / 10, crop_top = 1 / 10, crop_bottom = 1 / 10\<rparr>"
        10 10 "\<lambda>_. 0"]
  by auto

section \<open>RandomCropNearBBox: no shift\<close>

text \<open>
  Claim C10. Constructed with \<^verbatim>\<open>max_part_shift = (0, 0)\<close> and given the reference rectangle
  \<open>(x1, y1, x2, y2)\<close> under its key, sampling returns \<open>(max 0 x1, max 0 y1, x2, y2)\<close> for
  every random source: the four shifts are 0, the minimum corner is clamped at 0 and
  \<open>x_max\<close>, \<open>y_max\<close> are the rectangle's own, whatever the frame.
\<close>

theorem RandomCropNearBBox_zero_shift:
  "RandomCropNearBBox_init (Pair 0 0) key =
     Inr \<lparr>max_part_shift = (0, 0), cropping_bbox_key = key\<rparr> \<and>
   RandomCropNearBBox_get_params_dependent_on_targets
       \<lparr>max_part_shift = (0, 0), cropping_bbox_key = key\<rparr>
       (params(key \<mapsto> (x1, y1, x2, y2))) ri =
     Inr \<lparr>x_min = max 0 x1, x_max = x2, y_min = max 0 y1, y_max = y2\<rparr>"
  by (simp add: RandomCropNearBBox_init_def RandomCropNearBBox_get_params_dependent_on_targets_def
      py_round_def randint_def and_then_Inr)

theorem RandomCropNearBBox_zero_shift_witness:
  "RandomCropNearBBox_get_params_dependent_on_targets
       \<lparr>max_part_shift = (0, 0), cropping_bbox_key = ''cropping_bbox''\<rparr>
       (Map.empty(''cropping_bbox'' \<mapsto> (- 3, 5, 1000, 2000))) (\<lambda>k. int k) =
     Inr \<lparr>x_min = 0, x_max = 1000, y_min = 5, y_max = 2000\<rparr>"
  using RandomCropNearBBox_zero_shift [of "''cropping_bbox''" Map.empty "- 3" 5 1000 2000 "\<lambda>k. int k"]
  by simp

section \<open>Validation at construction\<close>

text \<open>
  Claim C5 as stated fails: RandomCropFromBorders is constructed with the border fraction
  \<open>crop_left = -1/2\<close>, outside \<open>[0, 1]\<close>, and the error comes at sample time, from the
  first \<^verbatim>\<open>randint\<close>, whose range \<open>0 .. -5\<close> on a frame of 10 columns is empty.
\<close>

theorem RandomCropFromBorders_init_counterexample:
  "RandomCropFromBorders_init (- 1 / 2) (1 / 10) (1 / 10) (1 / 10) =
     Inr \<lparr>crop_left = - 1 / 2, crop_right = 1 / 10, crop_top = 1 / 10, crop_bottom = 1 / 10\<rparr> \<and>
   RandomCropFromBorders_get_params_dependent_on_targets
     \<lparr>crop_left = - 1 / 2, crop_right = 1 / 10, crop_top = 1 / 10, crop_bottom = 1 / 10\<rparr>
     10 10 (\<lambda>_. 0) = Inl ValueError"
  by (simp add: RandomCropFromBorders_init_def
      RandomCropFromBorders_get_params_dependent_on_targets_def py_int_def randint_def and_then_Inl)

text \<open>
  Claim C5, amended. Of the four strategies named, RandomCropNearBBox alone validates at
  construction: its constructor raises \<^verbatim>\<open>ValueError\<close> exactly when the smaller entry of
  \<^verbatim>\<open>max_part_shift\<close> is below 0 or the larger above 1. The constructors of
  RandomCropFromBorders, BBoxSafeRandomCrop and RandomSizedCrop store their arguments
  as given and raise for none.
\<close>

theorem construction_validation:
  "RandomCropFromBorders_init l r t b =
     Inr \<lparr>crop_left = l, crop_right = r, crop_top = t, crop_bottom = b\<rparr> \<and>
   BBoxSafeRandomCrop_init e = Inr \<lparr>erosion_rate = e\<rparr> \<and>
   RandomSizedCrop_init mm h w q i =
     Inr \<lparr>height' = h, width' = w, interpolation' = i, min_max_height = mm, w2h_ratio = q\<rparr> \<and>
   (RandomCropNearBBox_init m key = Inl ValueError \<longleftrightarrow>
      min (fst (to_tuple m)) (snd (to_tuple m)) < 0 \<or> max (fst (to_tuple m)) (snd (to_tuple m)) > 1) \<and>
   (RandomCropNearBBox_init m key =
      Inr \<lparr>max_part_shift = to_tuple m, cropping_bbox_key = key\<rparr> \<longleftrightarrow>
      0 \<le> min (fst (to_tuple m)) (snd (to_tuple m)) \<and> max (fst (to_tuple m)) (snd (to_tuple m)) \<le> 1)"
  by (auto simp: RandomCropFromBorders_init_def BBoxSafeRandomCrop_init_def RandomSizedCrop_init_def
      RandomCropNearBBox_init_def Let_def)

theorem construction_validation_witness:
  "RandomCropFromBorders_init 2 (- 1) 7 (1 / 10) =
     Inr \<lparr>crop_left = 2, crop_right = - 1, crop_top = 7, crop_bottom = 1 / 10\<rparr> \<and>
   BBoxSafeRandomCrop_init 2 = Inr \<lparr>erosion_rate = 2\<rparr> \<and>
   RandomSizedCrop_init (10, 5) 32 32 1 1 =
     Inr \<lparr>height' = 32, width' = 32, interpolation' = 1, min_max_height = (10, 5), w2h_ratio = 1\<rparr> \<and>
   RandomCropNearBBox_init (Pair (3 / 10) (3 / 2)) ''cropping_bbox'' = Inl ValueError"
  using construction_validation [of 2 "- 1" 7 "1 / 10" 2 "(10, 5)" 32 32 1 1 "Pair (3 / 10) (3 / 2)"
      "''cropping_bbox''"]
  by simp

section \<open>CropNonEmptyMaskIfExists: the crop and the mask\<close>

lemma choice_mem: "choice xs r = Inr v \<Longrightarrow> v \<in> set xs"
  using choice_ok [of xs r] by (cases "xs = []") (auto simp: choice_def)

lemma indices_2d: "idx \<in> set (indices [H, W]) \<longleftrightarrow> (\<exists>y x. idx = [y, x] \<and> y < H \<and> x < W)"
  by (auto simp: image_iff)

lemma sum_channels_shape:
  assumes "shape m = H # W # rest" "length rest \<le> 1"
  shows "shape (sum_channels m) = [H, W]"
proof (cases rest)
  case Nil
  with assms show ?thesis by (simp add: sum_channels_def)
next
  case (Cons c cs)
  with assms have "rest = [c]" by simp
  with assms show ?thesis by (simp add: sum_channels_def np_sum_last_def)
qed

lemma sum_channels_2d: "shape m = [H, W] \<Longrightarrow> sum_channels m = m"
  by (simp add: sum_channels_def)

lemma argwhere_mem:
  assumes "shape a = [H, W]" "idx \<in> set (np_argwhere a)"
  shows "\<exists>y x. idx = [y, x] \<and> y < H \<and> x < W \<and> item a [y, x] \<noteq> 0"
  using assms indices_2d [of idx H W] by (auto simp: np_argwhere_def)

lemma argwhere_nonempty: "np_any a \<Longrightarrow> np_argwhere a \<noteq> []"
  by (auto simp: np_any_def np_argwhere_def filter_empty_conv)

lemma clip_contains:
  fixes x :: int
  assumes "0 \<le> x" "x < W" "w \<le> W" "0 \<le> d" "d \<le> w - 1"
  shows "0 \<le> np_clip (x - d) 0 (W - w) \<and> np_clip (x - d) 0 (W - w) \<le> W - w \<and>
         np_clip (x - d) 0 (W - w) \<le> x \<and> x < np_clip (x - d) 0 (W - w) + w"
  using assms by (auto simp: np_clip_def)

lemma update_params_unfold:
  assumes "CropNonEmptyMaskIfExists_find_mask self kwargs = Inr m" "shape m = H # W # rest"
  shows "CropNonEmptyMaskIfExists_update_params self kwargs ri =
       and_then
         (if np_any m then
            and_then (choice (np_argwhere (sum_channels m)) (ri 0)) (\<lambda>yx.
            case yx of
              [y, x] \<Rightarrow>
                and_then (randint 0 (width self - 1) (ri 1)) (\<lambda>dx.
                and_then (randint 0 (height self - 1) (ri 2)) (\<lambda>dy.
                Inr (np_clip (int x - dx) 0 (int W - width self),
                     np_clip (int y - dy) 0 (int H - height self))))
            | _ \<Rightarrow> Inl ValueError)
          else
            and_then (randint 0 (int W - width self) (ri 0)) (\<lambda>x_min0.
            and_then (randint 0 (int H - height self) (ri 1)) (\<lambda>y_min0.
            Inr (x_min0, y_min0))))
         (\<lambda>(x_min0, y_min0).
            Inr \<lparr>x_min = x_min0, x_max = x_min0 + width self,
                 y_min = y_min0, y_max = y_min0 + height self\<rparr>)"
  using assms by (simp add: CropNonEmptyMaskIfExists_update_params_def and_then_Inr)

lemma foreground_crop:
  assumes fm: "CropNonEmptyMaskIfExists_find_mask self kwargs = Inr m"
    and shape: "shape m = H # W # rest" "length rest \<le> 1"
    and fits: "height self \<le> int H" "width self \<le> int W"
    and fg: "np_any m"
  shows "(\<forall>d. CropNonEmptyMaskIfExists_update_params self kwargs ri = Inr d \<longrightarrow>
           (\<exists>y x. choice (np_argwhere (sum_channels m)) (ri 0) = Inr [y, x] \<and>
              item (sum_channels m) [y, x] \<noteq> 0 \<and>
              x_min d \<le> int x \<and> int x < x_max d \<and> y_min d \<le> int y \<and> int y < y_max d \<and>
              in_bounds self (int H) (int W) d)) \<and>
         (1 \<le> height self \<and> 1 \<le> width self \<and> np_any (sum_channels m) \<longrightarrow>
            (\<exists>d. CropNonEmptyMaskIfExists_update_params self kwargs ri = Inr d))"
proof -
  note u = update_params_unfold [OF fm shape(1), of ri]
  note s2 = sum_channels_shape [OF shape]
  have A: "\<exists>y x. choice (np_argwhere (sum_channels m)) (ri 0) = Inr [y, x] \<and>
              item (sum_channels m) [y, x] \<noteq> 0 \<and>
              x_min d \<le> int x \<and> int x < x_max d \<and> y_min d \<le> int y \<and> int y < y_max d \<and>
              in_bounds self (int H) (int W) d"
    if r: "CropNonEmptyMaskIfExists_update_params self kwargs ri = Inr d" for d
  proof (cases "choice (np_argwhere (sum_channels m)) (ri 0)")
    case (Inl e)
    with r u fg show ?thesis by (simp add: and_then_Inl)
  next
    case c: (Inr yx)
    from argwhere_mem [OF s2 choice_mem [OF c]] obtain y x where
      p: "yx = [y, x]" "y < H" "x < W" "item (sum_channels m) [y, x] \<noteq> 0" by blast
    have px: "0 \<le> int x" "int x < int W" and py: "0 \<le> int y" "int y < int H"
      using p by simp_all
    show ?thesis
    proof (cases "randint 0 (width self - 1) (ri 1)")
      case (Inl e)
      with r u fg c p show ?thesis by (simp add: and_then_Inr and_then_Inl)
    next
      case dx: (Inr dx)
      show ?thesis
      proof (cases "randint 0 (height self - 1) (ri 2)")
        case (Inl e)
        with r u fg c p dx show ?thesis by (simp add: and_then_Inr and_then_Inl)
      next
        case dy: (Inr dy)
        from randint_range [OF dx] have bx: "0 \<le> dx" "dx \<le> width self - 1" by simp_all
        from randint_range [OF dy] have "by": "0 \<le> dy" "dy \<le> height self - 1" by simp_all
        have d: "d = \<lparr>x_min = np_clip (int x - dx) 0 (int W - width self),
                      x_max = np_clip (int x - dx) 0 (int W - width self) + width self,
                      y_min = np_clip (int y - dy) 0 (int H - height self),
                      y_max = np_clip (int y - dy) 0 (int H - height self) + height self\<rparr>"
          using r u fg c p dx dy by (simp add: and_then_Inr)
        from clip_contains [OF px fits(2) bx] clip_contains [OF py fits(1) "by"] c p
        show ?thesis unfolding d in_bounds_def by simp
      qed
    qed
  qed
  have B: "\<exists>d. CropNonEmptyMaskIfExists_update_params self kwargs ri = Inr d"
    if pos: "1 \<le> height self \<and> 1 \<le> width self \<and> np_any (sum_channels m)"
  proof -
    from pos have ne: "np_argwhere (sum_channels m) \<noteq> []" by (simp add: argwhere_nonempty)
    from choice_ok [OF ne, of "ri 0"] obtain yx where
      c: "choice (np_argwhere (sum_channels m)) (ri 0) = Inr yx" "yx \<in> set (np_argwhere (sum_channels m))"
      by blast
    from argwhere_mem [OF s2 c(2)] obtain y x where p: "yx = [y, x]" by blast
    from pos have "0 \<le> width self - 1" "0 \<le> height self - 1" by simp_all
    from randint_ok [OF this(1), of "ri 1"] randint_ok [OF this(2), of "ri 2"]
    obtain dx dy where "randint 0 (width self - 1) (ri 1) = Inr dx"
      "randint 0 (height self - 1) (ri 2) = Inr dy" by blast
    with u c p fg show ?thesis by (simp add: and_then_Inr)
  qed
  from A B show ?thesis by blast
qed

lemma background_unfold:
  assumes fm: "CropNonEmptyMaskIfExists_find_mask self kwargs = Inr m"
    and shape: "shape m = H # W # rest"
    and bg: "\<not> np_any m"
    and x: "randint 0 (int W - width self) (r 0) = Inr a"
    and y: "randint 0 (int H - height self) (r 1) = Inr b"
  shows "CropNonEmptyMaskIfExists_update_params self kwargs r =
     Inr \<lparr>x_min = a, x_max = a + width self, y_min = b, y_max = b + height self\<rparr>"
  using update_params_unfold [OF fm shape, of r] bg x y by (simp add: and_then_Inr)

lemma randint_period: "0 \<le> r \<Longrightarrow> r \<le> n \<Longrightarrow> randint 0 n r = Inr r"
  by (simp add: randint_def)

lemma randint_mod: "0 \<le> n \<Longrightarrow> randint 0 n r = Inr (r mod (n + 1))"
  by (simp add: randint_def)

lemma background_offsets_period:
  assumes fm: "CropNonEmptyMaskIfExists_find_mask self kwargs = Inr m"
    and shape: "shape m = H # W # rest"
    and bg: "\<not> np_any m"
    and r: "r \<in> {0..int W - width self} \<times> {0..int H - height self}"
  shows "sampled_offsets self kwargs r = Some r"
proof -
  obtain r0 r1 where p: "r = (r0, r1)" by (cases r)
  with r have b: "0 \<le> r0" "r0 \<le> int W - width self" "0 \<le> r1" "r1 \<le> int H - height self"
    by simp_all
  let ?ri = "\<lambda>k::nat. if k = 0 then r0 else r1"
  have f: "(\<lambda>k::nat. if k = 0 then fst r else snd r) = ?ri"
    by (rule ext) (simp add: p)
  have "randint 0 (int W - width self) (?ri 0) = Inr r0"
    using randint_period [OF b(1,2)] by simp
  moreover have "randint 0 (int H - height self) (?ri 1) = Inr r1"
    using randint_period [OF b(3,4)] by simp
  ultimately have "CropNonEmptyMaskIfExists_update_params self kwargs ?ri =
     Inr \<lparr>x_min = r0, x_max = r0 + width self, y_min = r1, y_max = r1 + height self\<rparr>"
    by (rule background_unfold [OF fm shape bg])
  then show ?thesis unfolding sampled_offsets_def f by (simp add: p)
qed

lemma background_uniform:
  assumes fm: "CropNonEmptyMaskIfExists_find_mask self kwargs = Inr m"
    and shape: "shape m = H # W # rest"
    and fits: "height self \<le> int H" "width self \<le> int W"
    and bg: "\<not> np_any m"
    and v: "0 \<le> a" "a \<le> int W - width self" "0 \<le> b" "b \<le> int H - height self"
  shows "prob ({0..int W - width self} \<times> {0..int H - height self})
           (\<lambda>r. sampled_offsets self kwargs r = Some (a, b))
         = 1 / of_int ((int W - width self + 1) * (int H - height self + 1))"
proof -
  let ?box = "{0..int W - width self} \<times> {0..int H - height self}"
  have "{r \<in> ?box. sampled_offsets self kwargs r = Some (a, b)} = {(a, b)}"
  proof (rule set_eqI)
    fix r
    show "r \<in> {r \<in> ?box. sampled_offsets self kwargs r = Some (a, b)} \<longleftrightarrow> r \<in> {(a, b)}"
    proof (cases "r \<in> ?box")
      case True
      from background_offsets_period [OF fm shape bg True] True show ?thesis by auto
    next
      case False
      with v show ?thesis by auto
    qed
  qed
  then have c1: "card {r \<in> ?box. sampled_offsets self kwargs r = Some (a, b)} = 1" by simp
  have c2: "card ?box = nat (int W - width self + 1) * nat (int H - height self + 1)"
    by (simp add: card_cartesian_product)
  have "real (card ?box) = of_int ((int W - width self + 1) * (int H - height self + 1))"
    unfolding c2 using fits by simp
  with c1 show ?thesis by (simp add: prob_def)
qed

lemma background_crop:
  assumes fm: "CropNonEmptyMaskIfExists_find_mask self kwargs = Inr m"
    and shape: "shape m = H # W # rest"
    and fits: "height self \<le> int H" "width self \<le> int W"
    and bg: "\<not> np_any m"
  shows "(\<exists>d. CropNonEmptyMaskIfExists_update_params self kwargs ri = Inr d \<and>
           x_min d = ri 0 mod (int W - width self + 1) \<and>
           y_min d = ri 1 mod (int H - height self + 1) \<and>
           randint 0 (int W - width self) (ri 0) = Inr (x_min d) \<and>
           randint 0 (int H - height self) (ri 1) = Inr (y_min d) \<and>
           in_bounds self (int H) (int W) d) \<and>
         (\<forall>a b. 0 \<le> a \<and> a \<le> int W - width self \<and> 0 \<le> b \<and> b \<le> int H - height self \<longrightarrow>
            (\<exists>ri' d. CropNonEmptyMaskIfExists_update_params self kwargs ri' = Inr d \<and>
                x_min d = a \<and> y_min d = b) \<and>
            prob ({0..int W - width self} \<times> {0..int H - height self})
                 (\<lambda>r. sampled_offsets self kwargs r = Some (a, b))
              = 1 / of_int ((int W - width self + 1) * (int H - height self + 1)))"
proof -
  have w: "0 \<le> int W - width self" and h: "0 \<le> int H - height self" using fits by simp_all
  have x: "randint 0 (int W - width self) (ri 0) = Inr (ri 0 mod (int W - width self + 1))"
    using w by (rule randint_mod)
  have y: "randint 0 (int H - height self) (ri 1) = Inr (ri 1 mod (int H - height self + 1))"
    using h by (rule randint_mod)
  from randint_range [OF x] randint_range [OF y]
  have rg: "0 \<le> ri 0 mod (int W - width self + 1)" "ri 0 mod (int W - width self + 1) \<le> int W - width self"
    "0 \<le> ri 1 mod (int H - height self + 1)" "ri 1 mod (int H - height self + 1) \<le> int H - height self"
    by simp_all
  have first: "\<exists>d. CropNonEmptyMaskIfExists_update_params self kwargs ri = Inr d \<and>
           x_min d = ri 0 mod (int W - width self + 1) \<and>
           y_min d = ri 1 mod (int H - height self + 1) \<and>
           randint 0 (int W - width self) (ri 0) = Inr (x_min d) \<and>
           randint 0 (int H - height self) (ri 1) = Inr (y_min d) \<and>
           in_bounds self (int H) (int W) d"
    using background_unfold [OF fm shape bg x y] x y rg by (simp add: in_bounds_def)
  have second: "(\<exists>ri' d. CropNonEmptyMaskIfExists_update_params self kwargs ri' = Inr d \<and>
                x_min d = a \<and> y_min d = b) \<and>
            prob ({0..int W - width self} \<times> {0..int H - height self})
                 (\<lambda>r. sampled_offsets self kwargs r = Some (a, b))
              = 1 / of_int ((int W - width self + 1) * (int H - height self + 1))"
    if v: "0 \<le> a \<and> a \<le> int W - width self \<and> 0 \<le> b \<and> b \<le> int H - height self" for a b
  proof -
    let ?r = "\<lambda>k::nat. if k = 0 then a else b"
    have "randint 0 (int W - width self) (?r 0) = Inr a" using v randint_period [of a] by simp
    moreover have "randint 0 (int H - height self) (?r 1) = Inr b"
      using v randint_period [of b] by simp
    ultimately have "CropNonEmptyMaskIfExists_update_params self kwargs ?r =
       Inr \<lparr>x_min = a, x_max = a + width self, y_min = b, y_max = b + height self\<rparr>"
      by (rule background_unfold [OF fm shape bg])
    then have e: "\<exists>ri' d. CropNonEmptyMaskIfExists_update_params self kwargs ri' = Inr d \<and>
                x_min d = a \<and> y_min d = b"
      by (metis crop_coords.select_convs(1,3))
    from v have v': "0 \<le> a" "a \<le> int W - width self" "0 \<le> b" "b \<le> int H - height self"
      by simp_all
    from e background_uniform [OF fm shape fits bg v'] show ?thesis by simp
  qed
  from first second show ?thesis by blast
qed

text \<open>A mask that is found has at least two axes and is no smaller than the crop; or-ing
  further masks into it keeps its shape.\<close>

lemma preprocess_fits:
  assumes "CropNonEmptyMaskIfExists_preprocess_mask self m0 = Inr m"
  shows "\<exists>H W rest. shape m = H # W # rest \<and> height self \<le> int H \<and> width self \<le> int W"
proof -
  from assms obtain H W rest0 where s0: "shape m0 = H # W # rest0"
    by (auto simp: CropNonEmptyMaskIfExists_preprocess_mask_def split: list.splits)
  show ?thesis
    using assms s0
    by (auto simp: CropNonEmptyMaskIfExists_preprocess_mask_def Let_def and_then_def
        np_take_last_def np_where_isin_def
        split: option.splits if_splits)
qed

lemma inplace_or_shape: "inplace_or a b = Inr c \<Longrightarrow> shape c = shape a"
  by (auto simp: inplace_or_def Let_def split: if_splits)

lemma union_masks_shape:
  "CropNonEmptyMaskIfExists_union_masks self acc ms = Inr m \<Longrightarrow> shape m = shape acc"
proof (induction ms arbitrary: acc)
  case Nil
  then show ?case by simp
next
  case (Cons a ms)
  then show ?case
    by (auto simp: and_then_def split: sum.splits dest!: inplace_or_shape)
qed

lemma find_mask_fits:
  assumes "CropNonEmptyMaskIfExists_find_mask self kwargs = Inr m"
  shows "\<exists>H W rest. shape m = H # W # rest \<and> height self \<le> int H \<and> width self \<le> int W"
proof (cases "kw_mask kwargs")
  case (Some m0)
  with assms have "CropNonEmptyMaskIfExists_preprocess_mask self m0 = Inr m"
    by (simp add: CropNonEmptyMaskIfExists_find_mask_def)
  from preprocess_fits [OF this] show ?thesis by blast
next
  case None
  with assms obtain m0 ms acc where
    a: "CropNonEmptyMaskIfExists_preprocess_mask self m0 = Inr acc"
       "CropNonEmptyMaskIfExists_union_masks self acc ms = Inr m"
    by (auto simp: CropNonEmptyMaskIfExists_find_mask_def and_then_def
        split: option.splits list.splits sum.splits)
  from preprocess_fits [OF a(1)] union_masks_shape [OF a(2)] show ?thesis by auto
qed

text \<open>Masks whose shapes do not broadcast raise, and so does a mask of several channels
  whose entries are non-zero while their sums over the channels are all zero.\<close>

lemma masks_of_different_shapes_raise:
  "CropNonEmptyMaskIfExists_find_mask
     \<lparr>height = 1, width = 1, ignore_values = None, ignore_channels = None\<rparr>
     \<lparr>kw_mask = None,
      kw_masks = Some [\<lparr>shape = [2, 2], item = (\<lambda>_. 1)\<rparr>, \<lparr>shape = [3, 3], item = (\<lambda>_. 1)\<rparr>]\<rparr>
   = Inl ValueError"
  by (simp add: CropNonEmptyMaskIfExists_find_mask_def CropNonEmptyMaskIfExists_preprocess_mask_def
      and_then_def inplace_or_def)

lemma channel_sum_can_vanish:
  "np_any \<lparr>shape = [1, 1, 2], item = (\<lambda>idx. if idx = [0, 0, 0] then 1 else - 1)\<rparr> \<and>
   CropNonEmptyMaskIfExists_update_params
     \<lparr>height = 1, width = 1, ignore_values = None, ignore_channels = None\<rparr>
     \<lparr>kw_mask = Some \<lparr>shape = [1, 1, 2], item = (\<lambda>idx. if idx = [0, 0, 0] then 1 else - 1)\<rparr>,
      kw_masks = None\<rparr> ri
   = Inl IndexError"
  by (simp add: CropNonEmptyMaskIfExists_update_params_def CropNonEmptyMaskIfExists_find_mask_def
      CropNonEmptyMaskIfExists_preprocess_mask_def and_then_def np_any_def sum_channels_def
      np_sum_last_def np_argwhere_def choice_def numeral_2_eq_2)

text \<open>
  Claim C6. Let the mask found and preprocessed be \<open>m\<close>, of \<open>H\<close> rows and \<open>W\<close> columns (with
  or without a channel axis), and let the crop size fit: \<open>height \<le> H\<close> and \<open>width \<le> W\<close>. If
  \<open>m\<close> has a non-zero entry, every rectangle returned contains the pixel \<open>(y, x)\<close> drawn
  from the non-zero entries (of the sum over the channels, for a mask with channels):
  \<open>x_min \<le> x < x_max\<close> and \<open>y_min \<le> y < y_max\<close>, with offsets \<open>0 \<le> x_min \<le> W - width\<close> and
  \<open>0 \<le> y_min \<le> H - height\<close>; and a rectangle is returned whenever the crop size is at
  least 1 by 1 and there is such a pixel to draw, as there always is in a mask of two
  axes. If \<open>m\<close> is all zero, the offsets are the two integer draws of the random source
  reduced into \<open>0 .. W - width\<close> and \<open>0 .. H - height\<close> and nothing else is done to them;
  every valid pair of offsets is returned for some random source, and for draws uniform
  over the two ranges each valid pair has the probability 1 over the number of valid
  pairs: the offsets are uniform over all valid offsets.
\<close>

theorem CropNonEmptyMaskIfExists_crop:
  assumes "CropNonEmptyMaskIfExists_find_mask self kwargs = Inr m"
    and "shape m = H # W # rest" and "length rest \<le> 1"
    and "height self \<le> int H" and "width self \<le> int W"
  shows
    "(np_any m \<longrightarrow>
        (\<forall>d. CropNonEmptyMaskIfExists_update_params self kwargs ri = Inr d \<longrightarrow>
           (\<exists>y x. choice (np_argwhere (sum_channels m)) (ri 0) = Inr [y, x] \<and>
              item (sum_channels m) [y, x] \<noteq> 0 \<and>
              x_min d \<le> int x \<and> int x < x_max d \<and> y_min d \<le> int y \<and> int y < y_max d \<and>
              in_bounds self (int H) (int W) d)) \<and>
        (1 \<le> height self \<and> 1 \<le> width self \<and> np_any (sum_channels m) \<longrightarrow>
           (\<exists>d. CropNonEmptyMaskIfExists_update_params self kwargs ri = Inr d)) \<and>
        (rest = [] \<longrightarrow> sum_channels m = m)) \<and>
     (\<not> np_any m \<longrightarrow>
        (\<exists>d. CropNonEmptyMaskIfExists_update_params self kwargs ri = Inr d \<and>
           x_min d = ri 0 mod (int W - width self + 1) \<and>
           y_min d = ri 1 mod (int H - height self + 1) \<and>
           randint 0 (int W - width self) (ri 0) = Inr (x_min d) \<and>
           randint 0 (int H - height self) (ri 1) = Inr (y_min d) \<and>
           in_bounds self (int H) (int W) d) \<and>
        (\<forall>a b. 0 \<le> a \<and> a \<le> int W - width self \<and> 0 \<le> b \<and> b \<le> int H - height self \<longrightarrow>
           (\<exists>ri' d. CropNonEmptyMaskIfExists_update_params self kwargs ri' = Inr d \<and>
               x_min d = a \<and> y_min d = b) \<and>
           prob ({0..int W - width self} \<times> {0..int H - height self})
                (\<lambda>r. sampled_offsets self kwargs r = Some (a, b))
             = 1 / of_int ((int W - width self + 1) * (int H - height self + 1))))"
proof (intro conjI impI)
  assume fg: "np_any m"
  from foreground_crop [OF assms fg, of ri]
  show "\<forall>d. CropNonEmptyMaskIfExists_update_params self kwargs ri = Inr d \<longrightarrow>
           (\<exists>y x. choice (np_argwhere (sum_channels m)) (ri 0) = Inr [y, x] \<and>
              item (sum_channels m) [y, x] \<noteq> 0 \<and>
              x_min d \<le> int x \<and> int x < x_max d \<and> y_min d \<le> int y \<and> int y < y_max d \<and>
              in_bounds self (int H) (int W) d)"
    by blast
next
  assume fg: "np_any m"
    and "1 \<le> height self \<and> 1 \<le> width self \<and> np_any (sum_channels m)"
  with foreground_crop [OF assms fg, of ri]
  show "\<exists>d. CropNonEmptyMaskIfExists_update_params self kwargs ri = Inr d" by blast
next
  assume "rest = []"
  with assms(2) show "sum_channels m = m" by (simp add: sum_channels_def)
next
  assume bg: "\<not> np_any m"
  from background_crop [OF assms(1,2,4,5) bg, of ri]
  show "\<exists>d. CropNonEmptyMaskIfExists_update_params self kwargs ri = Inr d \<and>
           x_min d = ri 0 mod (int W - width self + 1) \<and>
           y_min d = ri 1 mod (int H - height self + 1) \<and>
           randint 0 (int W - width self) (ri 0) = Inr (x_min d) \<and>
           randint 0 (int H - height self) (ri 1) = Inr (y_min d) \<and>
           in_bounds self (int H) (int W) d"
    by blast
next
  assume bg: "\<not> np_any m"
  from background_crop [OF assms(1,2,4,5) bg, of ri]
  show "\<forall>a b. 0 \<le> a \<and> a \<le> int W - width self \<and> 0 \<le> b \<and> b \<le> int H - height self \<longrightarrow>
           (\<exists>ri' d. CropNonEmptyMaskIfExists_update_params self kwargs ri' = Inr d \<and>
               x_min d = a \<and> y_min d = b) \<and>
           prob ({0..int W - width self} \<times> {0..int H - height self})
                (\<lambda>r. sampled_offsets self kwargs r = Some (a, b))
             = 1 / of_int ((int W - width self + 1) * (int H - height self + 1))"
    by blast
qed


theorem CropNonEmptyMaskIfExists_crop_witness:
  "np_any (np_where_isin
       \<lparr>shape = [3, 3], item = (\<lambda>idx. if idx = [0, 1] then 7 else if idx = [1, 1] then 5 else 0)\<rparr> [7]) \<and>
   (\<exists>d. CropNonEmptyMaskIfExists_update_params
          \<lparr>height = 2, width = 2, ignore_values = Some [7], ignore_channels = None\<rparr>
          \<lparr>kw_mask = Some \<lparr>shape = [3, 3],
              item = (\<lambda>idx. if idx = [0, 1] then 7 else if idx = [1, 1] then 5 else 0)\<rparr>,
           kw_masks = None\<rparr> (\<lambda>_. 0) = Inr d) \<and>
   \<not> np_any \<lparr>shape = [3, 4], item = (\<lambda>_. 0)\<rparr> \<and>
   prob ({0..int 4 - 2} \<times> {0..int 3 - 2})
        (\<lambda>r. sampled_offsets \<lparr>height = 2, width = 2, ignore_values = None, ignore_channels = None\<rparr>
               \<lparr>kw_mask = Some \<lparr>shape = [3, 4], item = (\<lambda>_. 0)\<rparr>, kw_masks = None\<rparr> r = Some (2, 1))
     = 1 / 6"
proof -
  let ?self = "\<lparr>height = 2, width = 2, ignore_values = Some [7], ignore_channels = None\<rparr>"
  let ?m0 = "\<lparr>shape = [3, 3], item = (\<lambda>idx. if idx = [0, 1] then 7 else if idx = [1, 1] then 5 else 0)\<rparr>"
  let ?kw = "\<lparr>kw_mask = Some ?m0, kw_masks = None\<rparr>"
  let ?m = "np_where_isin ?m0 [7]"
  have s: "shape ?m = 3 # 3 # []" by (simp add: np_where_isin_def)
  have f: "CropNonEmptyMaskIfExists_find_mask ?self ?kw = Inr ?m"
    by (simp add: CropNonEmptyMaskIfExists_find_mask_def CropNonEmptyMaskIfExists_preprocess_mask_def
        and_then_def np_where_isin_def)
  have "[1, 1] \<in> set (indices (shape ?m))" unfolding s indices_2d by simp
  moreover have "item ?m [1, 1] \<noteq> 0" by (simp add: np_where_isin_def)
  ultimately have a: "np_any ?m" unfolding np_any_def by blast
  have l: "length ([] :: nat list) \<le> 1" by simp
  have h: "height ?self \<le> int 3" and w: "width ?self \<le> int 3" by simp_all
  from CropNonEmptyMaskIfExists_crop [OF f s l h w, of "\<lambda>_. 0"] a
  have fg: "\<exists>d. CropNonEmptyMaskIfExists_update_params ?self ?kw (\<lambda>_. 0) = Inr d" by auto
  let ?self2 = "\<lparr>height = 2, width = 2, ignore_values = None, ignore_channels = None\<rparr>"
  let ?z = "\<lparr>shape = [3, 4], item = (\<lambda>_. 0)\<rparr>"
  let ?kw2 = "\<lparr>kw_mask = Some ?z, kw_masks = None\<rparr>"
  have s2: "shape ?z = 3 # 4 # []" by simp
  have f2: "CropNonEmptyMaskIfExists_find_mask ?self2 ?kw2 = Inr ?z"
    by (simp add: CropNonEmptyMaskIfExists_find_mask_def CropNonEmptyMaskIfExists_preprocess_mask_def
        and_then_def)
  have b: "\<not> np_any ?z" by (simp add: np_any_def)
  have h2: "height ?self2 \<le> int 3" and w2: "width ?self2 \<le> int 4" by simp_all
  from CropNonEmptyMaskIfExists_crop [OF f2 s2 l h2 w2, of "\<lambda>_. 0"] b
  have "prob ({0..int 4 - 2} \<times> {0..int 3 - 2})
        (\<lambda>r. sampled_offsets ?self2 ?kw2 r = Some (2, 1)) = 1 / 6"
    by simp
  with a fg b show ?thesis by blast
qed


section \<open>RandomResizedCrop: the fallback\<close>

lemma loop_all_rejected:
  assumes "\<forall>k. k0 \<le> k \<and> k < k0 + n \<longrightarrow>
     (\<exists>c. RandomResizedCrop_candidate self rows cols (ru (2 * k)) (ru (2 * k + 1)) = Inr c \<and>
          \<not> accepted rows cols c)"
  shows "RandomResizedCrop_loop n k0 self rows cols ri ru = Inr None"
  using assms
proof (induction n arbitrary: k0)
  case 0
  show ?case by simp
next
  case (Suc n)
  have "k0 \<le> k0 \<and> k0 < k0 + Suc n" by simp
  with Suc.prems obtain c where
    c: "RandomResizedCrop_candidate self rows cols (ru (2 * k0)) (ru (2 * k0 + 1)) = Inr c"
       "\<not> accepted rows cols c"
    by blast
  have "RandomResizedCrop_loop n (Suc k0) self rows cols ri ru = Inr None"
    by (rule Suc.IH) (use Suc.prems in auto)
  with c show ?case
    by (cases c) (auto simp: and_then_Inr accepted_def)
qed

lemma candidate_ratio_pos:
  "RandomResizedCrop_candidate self rows cols u0 u1 = Inr c \<Longrightarrow>
     0 < fst (ratio self) \<and> 0 < snd (ratio self)"
  by (auto simp: RandomResizedCrop_candidate_def Let_def split: if_splits)

lemma sqrt_64: "sqrt 64 = 8"
  using real_sqrt_abs [of 8] by simp

lemma square_candidate:
  "RandomResizedCrop_candidate
      \<lparr>height' = h, width' = w, interpolation' = i, scale = (1, 1), ratio = (4, 4)\<rparr> 4 4 0 0 = Inr (8, 2)"
  using py_round_of_int [of 8] py_round_of_int [of 2]
  by (simp add: RandomResizedCrop_candidate_def uniform_def sqrt_64)

text \<open>
  Claim C3. If each of the 10 passes computes a candidate that the test rejects, then for
  a frame of at least one row the function returns the fallback: the crop width and
  height are those the specification documents (\<open>fallback_spec\<close>, with Python's rounding
  of a float), and the start fractions are the centring offsets
  \<open>(rows - crop_height) div 2\<close> and \<open>(cols - crop_width) div 2\<close> over the free extent plus
  \<open>1e-10\<close>.
\<close>

theorem RandomResizedCrop_fallback_exact:
  assumes rows: "1 \<le> rows"
    and rej: "\<forall>k<10. \<exists>c. RandomResizedCrop_candidate self rows cols (ru (2 * k)) (ru (2 * k + 1)) = Inr c \<and>
          \<not> accepted rows cols c"
  shows "\<exists>d. RandomResizedCrop_get_params_dependent_on_targets self rows cols ri ru = Inr d \<and>
           crop_width d = fst (fallback_spec (ratio self) rows cols) \<and>
           crop_height d = snd (fallback_spec (ratio self) rows cols) \<and>
           h_start d = of_int ((rows - crop_height d) div 2) / (of_int (rows - crop_height d) + 1 / 10 ^ 10) \<and>
           w_start d = of_int ((cols - crop_width d) div 2) / (of_int (cols - crop_width d) + 1 / 10 ^ 10)"
proof -
  have l: "RandomResizedCrop_loop 10 0 self rows cols ri ru = Inr None"
    by (rule loop_all_rejected) (use rej in auto)
  have "(0::nat) < 10" by simp
  with rej obtain c where "RandomResizedCrop_candidate self rows cols (ru (2 * 0)) (ru (2 * 0 + 1)) = Inr c"
    by blast
  from candidate_ratio_pos [OF this] have "min (fst (ratio self)) (snd (ratio self)) \<noteq> 0" by auto
  with rows l show ?thesis
    by (simp add: RandomResizedCrop_get_params_dependent_on_targets_def and_then_Inr
        RandomResizedCrop_fallback_def fallback_spec_def RandomResizedCrop_descriptor_def Let_def)
qed

theorem RandomResizedCrop_fallback_exact_witness:
  "RandomResizedCrop_candidate
        \<lparr>height' = 224, width' = 224, interpolation' = 1, scale = (1, 1), ratio = (4, 4)\<rparr> 4 4
        0 0 = Inr (8, 2) \<and>
   \<not> accepted 4 4 (8, 2) \<and>
   (\<exists>d. RandomResizedCrop_get_params_dependent_on_targets
        \<lparr>height' = 224, width' = 224, interpolation' = 1, scale = (1, 1), ratio = (4, 4)\<rparr> 4 4
        (\<lambda>_. 0) (\<lambda>_. 0) = Inr d \<and> crop_width d = 4 \<and> crop_height d = 1 \<and> h_start d = 1 / (3 + 1 / 10 ^ 10) \<and> w_start d = 0)"
proof -
  let ?self = "\<lparr>height' = 224, width' = 224, interpolation' = 1, scale = (1, 1), ratio = (4, 4)\<rparr>"
  have r: "\<forall>k<10. \<exists>c. RandomResizedCrop_candidate ?self 4 4
        ((\<lambda>_. 0) (2 * k)) ((\<lambda>_. 0) (2 * k + 1)) = Inr c \<and> \<not> accepted 4 4 c"
    by (simp add: square_candidate accepted_def)
  have o: "(1::int) \<le> 4" by simp
  have f: "fallback_spec (4, 4) 4 4 = (4, 1)"
    using py_round_of_int [of 1] by (simp add: fallback_spec_def)
  from RandomResizedCrop_fallback_exact [OF o r, of "\<lambda>_. 0"] f
  show ?thesis by (auto simp: square_candidate accepted_def)
qed

section \<open>RandomResizedCrop: the size of the crop\<close>

text \<open>
  What both paths do keep: a crop that the function returns is never larger than the
  frame, and one accepted by the loop has positive height and width.
\<close>

lemma loop_found:
  "RandomResizedCrop_loop n k self rows cols ri ru = Inr (Some d) \<Longrightarrow>
     0 < crop_height d \<and> crop_height d \<le> rows \<and> 0 < crop_width d \<and> crop_width d \<le> cols"
proof (induction n arbitrary: k)
  case 0
  then show ?case by simp
next
  case (Suc n)
  show ?case
  proof (cases "RandomResizedCrop_candidate self rows cols (ru (2 * k)) (ru (2 * k + 1))")
    case (Inl e)
    with Suc.prems show ?thesis by (simp add: and_then_Inl)
  next
    case (Inr c)
    obtain w h where c: "c = (w, h)" by (cases c)
    show ?thesis
    proof (cases "0 < w \<and> w \<le> cols \<and> 0 < h \<and> h \<le> rows")
      case True
      with Suc.prems Inr c show ?thesis
        by (auto simp: and_then_def RandomResizedCrop_descriptor_def split: sum.splits)
    next
      case False
      with Suc.prems Inr c have "RandomResizedCrop_loop n (Suc k) self rows cols ri ru = Inr (Some d)"
        by (auto simp: and_then_Inr)
      then show ?thesis by (rule Suc.IH)
    qed
  qed
qed

lemma loop_ratio_pos:
  "RandomResizedCrop_loop (Suc n) k self rows cols ri ru = Inr found \<Longrightarrow>
     0 < fst (ratio self) \<and> 0 < snd (ratio self)"
  by (cases "RandomResizedCrop_candidate self rows cols (ru (2 * k)) (ru (2 * k + 1))")
     (auto simp: and_then_Inl dest: candidate_ratio_pos)

lemma round_quotient_le:
  fixes lo :: real
  assumes "0 < lo" "0 < n" "0 \<le> c" "of_int c / of_int n < lo"
  shows "0 \<le> py_round (of_int c / lo) \<and> py_round (of_int c / lo) \<le> n"
proof -
  have np: "0 < (of_int n :: real)" using assms(2) by simp
  from assms(4) have "of_int c < lo * of_int n" using np by (simp add: pos_divide_less_eq)
  then have "of_int c / lo < of_int n" using assms(1) by (simp add: pos_divide_less_eq mult.commute)
  then have u: "py_round (of_int c / lo) \<le> n" by (intro py_round_upper) simp
  have "of_int 0 \<le> of_int c / lo" using assms(1,3) by simp
  then have "0 \<le> py_round (of_int c / lo)" by (rule py_round_lower)
  with u show ?thesis by simp
qed

lemma round_product_le:
  fixes hi :: real
  assumes "0 < hi" "0 < n" "of_int c / of_int n > hi"
  shows "0 \<le> py_round (of_int n * hi) \<and> py_round (of_int n * hi) \<le> c"
proof -
  have np: "0 < (of_int n :: real)" using assms(2) by simp
  from assms(3) have "of_int n * hi < of_int c" using np by (simp add: pos_less_divide_eq mult.commute)
  then have u: "py_round (of_int n * hi) \<le> c" by (intro py_round_upper) simp
  have "of_int 0 \<le> of_int n * hi" using assms(1) np by simp
  then have "0 \<le> py_round (of_int n * hi)" by (rule py_round_lower)
  with u show ?thesis by simp
qed

lemma fallback_within_frame:
  assumes "1 \<le> rows" "1 \<le> cols" "0 < fst (ratio self)" "0 < snd (ratio self)"
    and "RandomResizedCrop_fallback self rows cols = Inr d"
  shows "0 \<le> crop_height d \<and> crop_height d \<le> rows \<and> 0 \<le> crop_width d \<and> crop_width d \<le> cols"
proof -
  define lo where "lo = min (fst (ratio self)) (snd (ratio self))"
  define hi where "hi = max (fst (ratio self)) (snd (ratio self))"
  have lo: "0 < lo" and hi: "0 < hi" using assms(3,4) by (simp_all add: lo_def hi_def)
  have rp: "0 < rows" and cp: "0 \<le> cols" using assms(1,2) by simp_all
  have f: "RandomResizedCrop_fallback self rows cols =
      and_then
          (if of_int cols / of_int rows < lo then Inr (cols, py_round (of_int cols / lo))
           else if of_int cols / of_int rows > hi then Inr (py_round (of_int rows * hi), rows)
           else Inr (cols, rows))
          (\<lambda>(width, height).
             Inr (RandomResizedCrop_descriptor rows cols height width
                   ((rows - height) div 2) ((cols - width) div 2)))"
    unfolding RandomResizedCrop_fallback_def Let_def lo_def [symmetric] hi_def [symmetric]
    using rp lo by simp
  show ?thesis
  proof (cases "of_int cols / of_int rows < lo")
    case True
    from round_quotient_le [OF lo rp cp True] True assms(1,2,5) show ?thesis
      unfolding f by (auto simp: and_then_Inr RandomResizedCrop_descriptor_def)
  next
    case F1: False
    show ?thesis
    proof (cases "of_int cols / of_int rows > hi")
      case True
      from round_product_le [OF hi rp True] F1 True assms(1,2,5) show ?thesis
        unfolding f by (auto simp: and_then_Inr RandomResizedCrop_descriptor_def)
    next
      case False
      with F1 assms(1,2,5) show ?thesis
        unfolding f by (auto simp: and_then_Inr RandomResizedCrop_descriptor_def)
    qed
  qed
qed

lemma RandomResizedCrop_within_frame:
  assumes "1 \<le> rows" "1 \<le> cols"
    and "RandomResizedCrop_get_params_dependent_on_targets self rows cols ri ru = Inr d"
  shows "0 \<le> crop_height d \<and> crop_height d \<le> rows \<and> 0 \<le> crop_width d \<and> crop_width d \<le> cols"
proof (cases "RandomResizedCrop_loop 10 0 self rows cols ri ru")
  case (Inl e)
  with assms(3) show ?thesis
    by (simp add: RandomResizedCrop_get_params_dependent_on_targets_def and_then_Inl)
next
  case (Inr found)
  have "RandomResizedCrop_loop (Suc 9) 0 self rows cols ri ru = Inr found" using Inr by simp
  from loop_ratio_pos [OF this] have rp: "0 < fst (ratio self)" "0 < snd (ratio self)" by simp_all
  show ?thesis
  proof (cases found)
    case None
    with Inr assms(3) have "RandomResizedCrop_fallback self rows cols = Inr d"
      by (simp add: RandomResizedCrop_get_params_dependent_on_targets_def and_then_Inr)
    from fallback_within_frame [OF assms(1,2) rp this] show ?thesis .
  next
    case (Some d')
    with Inr assms(3) have "d' = d"
      by (simp add: RandomResizedCrop_get_params_dependent_on_targets_def and_then_Inr)
    with Inr Some loop_found [of 10 0 self rows cols ri ru d] show ?thesis by simp
  qed
qed

lemma narrow_frame_candidate:
  assumes "0 \<le> u0" "0 \<le> u1"
  shows "\<exists>c. RandomResizedCrop_candidate
            \<lparr>height' = h, width' = w, interpolation' = i, scale = (8 / 100, 1), ratio = (5, 6)\<rparr>
            10 1 u0 u1 = Inr c \<and> 2 \<le> fst c"
proof -
  let ?ta = "uniform (8 / 100) 1 u0 * of_int (10 * 1)"
  let ?a = "exp (uniform (ln 5) (ln 6) u1)"
  have "0 \<le> (1 - 8 / 100) * u0" using assms(1) by simp
  then have ta: "8 / 10 \<le> ?ta" by (simp add: uniform_def)
  have "ln 5 \<le> ln (6::real)" by simp
  then have "0 \<le> (ln 6 - ln 5) * u1" using assms(2) by simp
  then have "ln 5 \<le> uniform (ln 5) (ln 6) u1" by (simp add: uniform_def)
  then have "exp (ln 5) \<le> ?a" by (simp only: exp_le_cancel_iff)
  then have a: "5 \<le> ?a" by simp
  have "(8 / 10) * 5 \<le> ?ta * ?a"
    using ta a by (intro mult_mono) simp_all
  then have p: "2\<^sup>2 \<le> ?ta * ?a" by simp
  then have "2 \<le> sqrt (?ta * ?a)" by (rule real_le_rsqrt)
  then have "of_int 2 \<le> sqrt (?ta * ?a)" by simp
  then have w2: "2 \<le> py_round (sqrt (?ta * ?a))" by (rule py_round_lower)
  have nn: "\<not> ?ta * ?a < 0" using p by (simp add: not_less power2_eq_square)
  have "0 \<le> ?ta" using ta by linarith
  then have nd: "\<not> ?ta / ?a < 0" by (simp add: not_less)
  have "RandomResizedCrop_candidate
            \<lparr>height' = h, width' = w, interpolation' = i, scale = (8 / 100, 1), ratio = (5, 6)\<rparr>
            10 1 u0 u1 = Inr (py_round (sqrt (?ta * ?a)), py_round (sqrt (?ta / ?a)))"
    using nn nd by (simp add: RandomResizedCrop_candidate_def Let_def)
  with w2 show ?thesis by simp
qed

text \<open>
  Claim C9, at an input where the code leaves it. On a frame of 10 rows and 1 column, with
  the default scale \<open>(0.08, 1.0)\<close> and the ratio range \<open>(5, 6)\<close>, every candidate is at least 2
  wide, so each of the 10 passes is rejected whatever the draws; the fallback takes the
  branch of a frame narrower than the smallest ratio and returns the width 1 and the
  height \<open>round(1 / 5) = 0\<close>. The loop accepts a candidate only if \<open>0 < height\<close>; the
  fallback makes no such test.
\<close>

theorem RandomResizedCrop_zero_height:
  assumes "\<forall>k. 0 \<le> ru k \<and> ru k < 1"
  shows "\<exists>d. RandomResizedCrop_get_params_dependent_on_targets
            \<lparr>height' = h, width' = w, interpolation' = i, scale = (8 / 100, 1), ratio = (5, 6)\<rparr>
            10 1 ri ru = Inr d \<and> crop_height d = 0 \<and> crop_width d = 1"
proof -
  let ?self = "\<lparr>height' = h, width' = w, interpolation' = i, scale = (8 / 100, 1), ratio = (5, 6)\<rparr>"
  have "\<exists>c. RandomResizedCrop_candidate ?self 10 1 (ru (2 * k)) (ru (2 * k + 1)) = Inr c \<and>
          \<not> accepted 10 1 c" for k
    using narrow_frame_candidate [of "ru (2 * k)" "ru (2 * k + 1)" h w i] assms
    by (auto simp: accepted_def)
  then have l: "RandomResizedCrop_loop 10 0 ?self 10 1 ri ru = Inr None"
    by (intro loop_all_rejected) blast
  have r: "py_round (1 / 5) = 0" by (simp add: py_round_def)
  show ?thesis
    unfolding RandomResizedCrop_get_params_dependent_on_targets_def l
    by (simp add: and_then_Inr RandomResizedCrop_fallback_def RandomResizedCrop_descriptor_def r)
qed


theorem RandomResizedCrop_zero_height_witness:
  "(\<forall>k::nat. (0::real) \<le> (\<lambda>_. 1 / 2) k \<and> (\<lambda>_. 1 / 2 :: real) k < 1) \<and>
   (\<exists>d. RandomResizedCrop_get_params_dependent_on_targets
          \<lparr>height' = 224, width' = 224, interpolation' = 1, scale = (8 / 100, 1), ratio = (5, 6)\<rparr>
          10 1 (\<lambda>_. 0) (\<lambda>_. 1 / 2) = Inr d \<and> crop_height d = 0 \<and> crop_width d = 1)"
proof -
  have h: "\<forall>k::nat. (0::real) \<le> (\<lambda>_. 1 / 2) k \<and> (\<lambda>_. 1 / 2 :: real) k < 1" by simp
  from RandomResizedCrop_zero_height [OF h, of 224 224 1 "\<lambda>_. 0"] h show ?thesis by blast
qed

section \<open>BBoxSafeRandomCrop: the crop and the union rectangle\<close>

lemma grow_side:
  fixes x u :: real
  assumes "0 \<le> x" "x \<le> 1" "0 \<le> u" "u < 1"
  shows "0 \<le> x * u \<and> x * u \<le> x \<and> x \<le> x + (1 - x) * u \<and> x + (1 - x) * u \<le> 1"
proof -
  have a: "0 \<le> x * u" using assms by simp
  have "x * u \<le> x * 1" using assms by (intro mult_left_mono) simp_all
  then have b: "x * u \<le> x" by simp
  have c: "0 \<le> (1 - x) * u" using assms by simp
  have "(1 - x) * u \<le> (1 - x) * 1" using assms by (intro mult_left_mono) simp_all
  then have d: "x + (1 - x) * u \<le> 1" by simp
  from a b c d show ?thesis by simp
qed

lemma extent_pixels:
  fixes e :: real
  assumes "0 \<le> e" "e \<le> 1" "0 \<le> n"
  shows "of_int (if e \<ge> 1 then n else py_int (of_int n * e)) \<le> of_int n * e \<and>
         of_int n * e < of_int (if e \<ge> 1 then n else py_int (of_int n * e)) + 1"
proof (cases "e \<ge> 1")
  case True
  with assms have "e = 1" by simp
  then show ?thesis by simp
next
  case False
  have "0 \<le> of_int n * e" using assms by simp
  then have "py_int (of_int n * e) = \<lfloor>of_int n * e\<rfloor>" by (rule py_int_floor)
  with False show ?thesis by (simp add: floor_correct)
qed

text \<open>
  What the sampling does guarantee: for a normalized union rectangle and draws in
  \<open>[0, 1)\<close>, the real-valued region grown from it contains it and lies in the unit square;
  the crop height and width are the extents of that region scaled to the frame and
  truncated to whole pixels, and the start fractions lie in \<open>[0, 1]\<close>.
\<close>

lemma bigger_region_contains_union:
  assumes ne: "bboxes \<noteq> []"
    and un: "union_of_bboxes img_w img_h bboxes (erosion_rate self) = (x, y, x2, y2)"
    and xs: "0 \<le> x" "x \<le> x2" "x2 \<le> 1"
    and ys: "0 \<le> y" "y \<le> y2" "y2 \<le> 1"
    and dr: "\<forall>k. 0 \<le> ru k \<and> ru k < 1"
    and fr: "0 \<le> img_h" "0 \<le> img_w"
  shows "\<exists>bx by bx2 by2 d.
           bigger_region (x, y, x2, y2) ru = (bx, by, bx2, by2) \<and>
           contains_rect (bx, by, bx2, by2) (x, y, x2, y2) \<and>
           contains_rect (0, 0, 1, 1) (bx, by, bx2, by2) \<and>
           BBoxSafeRandomCrop_get_params_dependent_on_targets self union_of_bboxes img_h img_w bboxes
             ri ru = Inr d \<and>
           of_int (crop_height d) \<le> of_int img_h * (by2 - by) \<and>
           of_int img_h * (by2 - by) < of_int (crop_height d) + 1 \<and>
           of_int (crop_width d) \<le> of_int img_w * (bx2 - bx) \<and>
           of_int img_w * (bx2 - bx) < of_int (crop_width d) + 1 \<and>
           0 \<le> h_start d \<and> h_start d \<le> 1 \<and> 0 \<le> w_start d \<and> w_start d \<le> 1"
proof -
  let ?bx = "x * ru 0" and ?by = "y * ru 1"
  let ?bx2 = "x2 + (1 - x2) * ru 2" and ?by2 = "y2 + (1 - y2) * ru 3"
  have x1: "x \<le> 1" and y1: "y \<le> 1" and x20: "0 \<le> x2" and y20: "0 \<le> y2"
    using xs ys by simp_all
  from dr have d0: "0 \<le> ru 0" "ru 0 < 1" and d1: "0 \<le> ru 1" "ru 1 < 1"
    and d2: "0 \<le> ru 2" "ru 2 < 1" and d3: "0 \<le> ru 3" "ru 3 < 1" by simp_all
  from grow_side [OF xs(1) x1 d0] have gx: "0 \<le> ?bx" "?bx \<le> x" by simp_all
  from grow_side [OF ys(1) y1 d1] have gy: "0 \<le> ?by" "?by \<le> y" by simp_all
  from grow_side [OF x20 xs(3) d2] have gx2: "x2 \<le> ?bx2" "?bx2 \<le> 1" by simp_all
  from grow_side [OF y20 ys(3) d3] have gy2: "y2 \<le> ?by2" "?by2 \<le> 1" by simp_all
  have br: "bigger_region (x, y, x2, y2) ru = (?bx, ?by, ?bx2, ?by2)"
    by (simp add: bigger_region_def)
  have c1: "contains_rect (?bx, ?by, ?bx2, ?by2) (x, y, x2, y2)"
    using gx gy gx2 gy2 by (simp add: contains_rect_def)
  have c2: "contains_rect (0, 0, 1, 1) (?bx, ?by, ?bx2, ?by2)"
    using gx gy gx2 gy2 by (simp add: contains_rect_def)
  let ?bw = "?bx2 - ?bx" and ?bh = "?by2 - ?by"
  have bw: "0 \<le> ?bw" "?bw \<le> 1" using gx gx2 xs by linarith+
  have bh: "0 \<le> ?bh" "?bh \<le> 1" using gy gy2 ys by linarith+
  let ?d = "\<lparr>h_start = np_clip (if ?bh \<ge> 1 then 0 else ?by / (1 - ?bh)) 0 1,
             w_start = np_clip (if ?bw \<ge> 1 then 0 else ?bx / (1 - ?bw)) 0 1,
             crop_height = (if ?bh \<ge> 1 then img_h else py_int (of_int img_h * ?bh)),
             crop_width = (if ?bw \<ge> 1 then img_w else py_int (of_int img_w * ?bw))\<rparr>"
  have res: "BBoxSafeRandomCrop_get_params_dependent_on_targets self union_of_bboxes img_h img_w
      bboxes ri ru = Inr ?d"
    using ne by (simp add: BBoxSafeRandomCrop_get_params_dependent_on_targets_def un br Let_def)
  have st: "0 \<le> h_start ?d \<and> h_start ?d \<le> 1 \<and> 0 \<le> w_start ?d \<and> w_start ?d \<le> 1"
    by (simp add: np_clip_def)
  from extent_pixels [OF bh fr(1)] extent_pixels [OF bw fr(2)]
  have ex: "of_int (crop_height ?d) \<le> of_int img_h * ?bh \<and>
      of_int img_h * ?bh < of_int (crop_height ?d) + 1 \<and>
      of_int (crop_width ?d) \<le> of_int img_w * ?bw \<and>
      of_int img_w * ?bw < of_int (crop_width ?d) + 1"
    by simp
  from br c1 c2 res st ex show ?thesis by blast
qed

text \<open>
  Claim C4, at an input where the code leaves it. The frame is 10 by 10 and the one box
  \<open>(0, 0, 0.75, 0.75)\<close> is its own union at erosion rate 0. With every draw \<open>0.1\<close> the grown
  region is \<open>(0, 0, 0.775, 0.775)\<close>; its extent of 7.75 pixels is truncated to a crop of 7
  by 7 at start fractions 0. The crop covers \<open>[0, 0.7]\<close> of each axis and the union
  rectangle reaches 0.75. A crop of 7 pixels is shorter than the union's 7.5 wherever
  it is placed.
\<close>

theorem BBoxSafeRandomCrop_cuts_union:
  "BBoxSafeRandomCrop_get_params_dependent_on_targets \<lparr>erosion_rate = 0\<rparr>
      (\<lambda>w h bs e. (0, 0, 3 / 4, 3 / 4)) 10 10 [(0, 0, 3 / 4, 3 / 4)] (\<lambda>_. 0) (\<lambda>_. 1 / 10) =
     Inr \<lparr>h_start = 0, w_start = 0, crop_height = 7, crop_width = 7\<rparr> \<and>
   crop_bounds_norm \<lparr>h_start = 0, w_start = 0, crop_height = 7, crop_width = 7\<rparr> 10 10 =
     (0, 0, 7 / 10, 7 / 10) \<and>
   \<not> contains_rect
        (crop_bounds_norm \<lparr>h_start = 0, w_start = 0, crop_height = 7, crop_width = 7\<rparr> 10 10)
        (0, 0, 3 / 4, 3 / 4)"
  by (simp add: BBoxSafeRandomCrop_get_params_dependent_on_targets_def bigger_region_def py_int_def
      np_clip_def crop_bounds_norm_def get_random_crop_coords_def contains_rect_def Let_def)

end
